theory Spec2Isabelle
  imports Main
begin

section \<open>Python values and the built-ins the source calls\<close>

text \<open>
  The two classes of the repository, \<^verbatim>\<open>HardwareOracle\<close> (hardware_oracle.py) and
  \<^verbatim>\<open>GDBInterface\<close> (agent_tools.py), are embedded as HOL functions. A string is a list
  of code points below 256 (\<^typ>\<open>string\<close>), Python's unbounded integers are \<^typ>\<open>int\<close>,
  and the dictionaries the methods return are association lists in insertion order.
  The conversion \<^verbatim>\<open>int(s, 16)\<close> is modelled on all these strings; \<^verbatim>\<open>upper()\<close> is modelled
  on the code points below 128, which is where the names and queries of the examples
  lie.
\<close>

datatype pyval =
    PNone
  | PStr string
  | PInt int
  | PList "pyval list"
  | PDict "(string \<times> pyval) list"

datatype py_error = ValueError | TypeError | AttributeError | IndexError

subsection \<open>\<^verbatim>\<open>int(s, 16)\<close>\<close>

text \<open>
  CPython's \<^verbatim>\<open>int(s, 16)\<close> on a \<^verbatim>\<open>str\<close>: leading white space, an optional sign,
  an optional \<^verbatim>\<open>0x\<close>/\<^verbatim>\<open>0X\<close> prefix (after which one underscore is allowed), then hex
  digits with single underscores between them, then trailing white space. Anything else
  raises \<^verbatim>\<open>ValueError\<close>. White space is what \<^verbatim>\<open>int\<close> skips in a \<^verbatim>\<open>str\<close>: the code points
  9 to 13 and 32, and among the code points from 128 to 255 the two that Unicode counts as
  white space, 133 and 160. No code point from 128 to 255 is a decimal digit.
\<close>

definition py_isspace :: "char \<Rightarrow> bool" where
  "py_isspace c =
     (let n = (of_char c :: nat) in (9 \<le> n \<and> n \<le> 13) \<or> n = 32 \<or> n = 133 \<or> n = 160)"

definition hex_digit_value :: "char \<Rightarrow> nat option" where
  "hex_digit_value c =
     (let n = (of_char c :: nat) in
      if 48 \<le> n \<and> n \<le> 57 then Some (n - 48)
      else if 97 \<le> n \<and> n \<le> 102 then Some (n - 87)
      else if 65 \<le> n \<and> n \<le> 70 then Some (n - 55)
      else None)"

text \<open>
  The digit loop: \<open>prev_us\<close> says that the previous character was an underscore,
  \<open>acc\<close> is the value read so far. It returns the value and the rest of the input, or
  \<open>None\<close> on a doubled or trailing underscore.
\<close>

fun scan_hex :: "bool \<Rightarrow> nat \<Rightarrow> string \<Rightarrow> (nat \<times> string) option" where
  "scan_hex prev_us acc [] = (if prev_us then None else Some (acc, []))"
| "scan_hex prev_us acc (c # cs) =
     (if c = CHR ''_'' then (if prev_us then None else scan_hex True acc cs)
      else (case hex_digit_value c of
              Some d \<Rightarrow> scan_hex False (16 * acc + d) cs
            | None \<Rightarrow> (if prev_us then None else Some (acc, c # cs))))"

definition strip_sign :: "string \<Rightarrow> bool \<times> string" where
  "strip_sign s =
     (case s of
        c # cs \<Rightarrow> (if c = CHR ''+'' then (False, cs)
                   else if c = CHR ''-'' then (True, cs)
                   else (False, s))
      | [] \<Rightarrow> (False, s))"

definition strip_prefix16 :: "string \<Rightarrow> string" where
  "strip_prefix16 s =
     (case s of
        c0 # c1 # cs \<Rightarrow>
          (if c0 = CHR ''0'' \<and> (c1 = CHR ''x'' \<or> c1 = CHR ''X'')
           then (case cs of u # us \<Rightarrow> (if u = CHR ''_'' then us else cs) | [] \<Rightarrow> cs)
           else s)
      | _ \<Rightarrow> s)"

definition py_int16 :: "string \<Rightarrow> py_error + int" where
  "py_int16 s =
     (let (neg, s1) = strip_sign (dropWhile py_isspace s);
          s2 = strip_prefix16 s1
      in case s2 of
           [] \<Rightarrow> Inl ValueError
         | c # cs \<Rightarrow>
             (if c = CHR ''_'' then Inl ValueError
              else (case scan_hex False 0 s2 of
                      None \<Rightarrow> Inl ValueError
                    | Some (v, rest) \<Rightarrow>
                        (if rest = s2 then Inl ValueError
                         else if dropWhile py_isspace rest \<noteq> [] then Inl ValueError
                         else Inr (if neg then - int v else int v)))))"

subsection \<open>\<^verbatim>\<open>hex(n)\<close>, \<^verbatim>\<open>str(n)\<close>, \<^verbatim>\<open>s.upper()\<close>, \<^verbatim>\<open>s.split('.')\<close>\<close>

definition digit_char :: "nat \<Rightarrow> char" where
  "digit_char d = ''0123456789abcdef'' ! d"

fun digits_of :: "nat \<Rightarrow> nat \<Rightarrow> string" where
  "digits_of b n =
     (if b < 2 \<or> n < b then [digit_char n]
      else digits_of b (n div b) @ [digit_char (n mod b)])"

declare digits_of.simps [simp del]

definition py_hex :: "int \<Rightarrow> string" where
  "py_hex n = (if n < 0 then ''-0x'' @ digits_of 16 (nat (- n)) else ''0x'' @ digits_of 16 (nat n))"

definition py_str_int :: "int \<Rightarrow> string" where
  "py_str_int n = (if n < 0 then ''-'' @ digits_of 10 (nat (- n)) else digits_of 10 (nat n))"

text \<open>
  \<^verbatim>\<open>s.upper()\<close> on ASCII strings: the letters a to z go to A to Z, every other code point
  below 128 stays.
\<close>

definition upper_char :: "char \<Rightarrow> char" where
  "upper_char c =
     (case map_of (zip ''abcdefghijklmnopqrstuvwxyz'' ''ABCDEFGHIJKLMNOPQRSTUVWXYZ'') c of
        Some u \<Rightarrow> u
      | None \<Rightarrow> c)"

definition py_upper :: "string \<Rightarrow> string" where
  "py_upper s = map upper_char s"

text \<open>\<^verbatim>\<open>s.split(sep)\<close> for a one-character separator: never the empty list.\<close>

fun py_split :: "char \<Rightarrow> string \<Rightarrow> string list" where
  "py_split sep [] = [[]]"
| "py_split sep (c # cs) =
     (if c = sep then [] # py_split sep cs
      else (case py_split sep cs of
              w # ws \<Rightarrow> (c # w) # ws
            | [] \<Rightarrow> [[c]]))"

definition py_opt_str :: "string option \<Rightarrow> pyval" where
  "py_opt_str d = (case d of None \<Rightarrow> PNone | Some t \<Rightarrow> PStr t)"

text \<open>\<^verbatim>\<open>d.get(k)\<close> on a returned dictionary; \<open>None\<close> for a value that is no dictionary.\<close>

definition dict_get :: "pyval \<Rightarrow> string \<Rightarrow> pyval option" where
  "dict_get d k = (case d of PDict kvs \<Rightarrow> map_of kvs k | _ \<Rightarrow> None)"

section \<open>The device descriptor index (hardware_oracle.py)\<close>

text \<open>
  The index is what \<^verbatim>\<open>SVDParser\<close> hands to the constructor: peripherals in document
  order, each with its registers, each register with its fields. A description may be
  absent in the document, and so may the register list of a peripheral: \<^verbatim>\<open>registers\<close> is
  then \<^verbatim>\<open>None\<close>.
\<close>

record svd_field =
  field_name :: string
  bit_offset :: int
  bit_width :: int
  field_description :: "string option"

record svd_register =
  reg_name :: string
  address_offset :: int
  reg_description :: "string option"
  reg_fields :: "svd_field list"

record svd_peripheral =
  periph_name :: string
  base_address :: int
  periph_description :: "string option"
  registers :: "svd_register list option"

record HardwareOracle =
  peripherals :: "svd_peripheral list"

subsection \<open>\<^verbatim>\<open>resolve_address\<close>\<close>

definition field_dict :: "svd_field \<Rightarrow> pyval" where
  "field_dict f =
     PDict [(''name'', PStr (field_name f)),
            (''bit_offset'', PInt (bit_offset f)),
            (''bit_width'', PInt (bit_width f)),
            (''description'', py_opt_str (field_description f))]"

definition match_dict :: "svd_peripheral \<Rightarrow> svd_register \<Rightarrow> int \<Rightarrow> pyval" where
  "match_dict periph reg addr =
     PDict [(''peripheral'', PStr (periph_name periph)),
            (''register'', PStr (reg_name reg)),
            (''description'', py_opt_str (reg_description reg)),
            (''address'', PStr (py_hex addr)),
            (''fields'', PList (map field_dict (reg_fields reg)))]"

text \<open>The inner loop over \<^verbatim>\<open>periph.registers\<close>: it returns at the first equal offset.\<close>

fun search_registers :: "svd_peripheral \<Rightarrow> int \<Rightarrow> int \<Rightarrow> svd_register list \<Rightarrow> pyval option" where
  "search_registers periph addr offset [] = None"
| "search_registers periph addr offset (reg # regs) =
     (if address_offset reg = offset then Some (match_dict periph reg addr)
      else search_registers periph addr offset regs)"

text \<open>
  The outer loop over \<^verbatim>\<open>self.peripherals\<close>, with its \<^verbatim>\<open>continue\<close> below the base.
  \<^verbatim>\<open>for reg in periph.registers\<close> raises \<^verbatim>\<open>TypeError\<close> when the register list is \<^verbatim>\<open>None\<close>.
\<close>

fun search_peripherals :: "int \<Rightarrow> svd_peripheral list \<Rightarrow> py_error + pyval option" where
  "search_peripherals addr [] = Inr None"
| "search_peripherals addr (periph # periphs) =
     (let base = base_address periph in
      if addr < base then search_peripherals addr periphs
      else (let offset = addr - base in
            case registers periph of
              None \<Rightarrow> Inl TypeError
            | Some regs \<Rightarrow>
                (case search_registers periph addr offset regs of
                   Some d \<Rightarrow> Inr (Some d)
                 | None \<Rightarrow> search_peripherals addr periphs)))"

text \<open>
  The \<^verbatim>\<open>try\<close> block holds the conversion only and catches \<^verbatim>\<open>ValueError\<close> only; an
  exception of the loops leaves the method.
\<close>

definition resolve_address :: "HardwareOracle \<Rightarrow> string \<Rightarrow> py_error + pyval" where
  "resolve_address self hex_addr =
     (case py_int16 hex_addr of
        Inl e \<Rightarrow>
          (if e = ValueError
           then Inr (PDict [(''error'', PStr (''Invalid address format: '' @ hex_addr))])
           else Inl e)
      | Inr addr \<Rightarrow>
          (case search_peripherals addr (peripherals self) of
             Inl e \<Rightarrow> Inl e
           | Inr (Some d) \<Rightarrow> Inr d
           | Inr None \<Rightarrow>
               Inr (PDict [(''status'', PStr ''No matching register found for this address.'')])))"

subsection \<open>\<^verbatim>\<open>get_reg_info\<close>\<close>

definition periph_dict :: "string \<Rightarrow> svd_peripheral \<Rightarrow> svd_register list \<Rightarrow> pyval" where
  "periph_dict p_name found_periph regs =
     PDict [(''peripheral'', PStr p_name),
            (''base_address'', PStr (py_hex (base_address found_periph))),
            (''description'', py_opt_str (periph_description found_periph)),
            (''registers'', PList (map (\<lambda>r. PStr (reg_name r)) regs))]"

definition reg_dict :: "string \<Rightarrow> string \<Rightarrow> svd_peripheral \<Rightarrow> svd_register \<Rightarrow> pyval" where
  "reg_dict p_name r_name found_periph r =
     PDict [(''peripheral'', PStr p_name),
            (''register'', PStr r_name),
            (''base_address'', PStr (py_hex (base_address found_periph))),
            (''offset'', PStr (py_hex (address_offset r))),
            (''absolute_address'', PStr (py_hex (base_address found_periph + address_offset r))),
            (''description'', py_opt_str (reg_description r))]"

text \<open>
  \<^verbatim>\<open>parts[0]\<close> raises \<^verbatim>\<open>IndexError\<close> on an empty list; \<^verbatim>\<open>if r_name\<close> takes the
  \<^verbatim>\<open>else\<close> branch for \<^verbatim>\<open>None\<close> and for the empty string. Both loops stop at the first
  equal name. The loop over \<^verbatim>\<open>found_periph.registers\<close> and the list comprehension over
  it raise \<^verbatim>\<open>TypeError\<close> when the register list is \<^verbatim>\<open>None\<close>.
\<close>

definition get_reg_info :: "HardwareOracle \<Rightarrow> string \<Rightarrow> py_error + pyval" where
  "get_reg_info self name =
     (case py_split CHR ''.'' (py_upper name) of
        [] \<Rightarrow> Inl IndexError
      | p_name # rest \<Rightarrow>
          (let r_name = (case rest of [] \<Rightarrow> None | r # _ \<Rightarrow> Some r) in
           case find (\<lambda>p. periph_name p = p_name) (peripherals self) of
             None \<Rightarrow>
               Inr (PDict [(''error'',
                      PStr (''Peripheral '' @ [CHR 0x27] @ p_name @ [CHR 0x27] @ '' not found.''))])
           | Some found_periph \<Rightarrow>
               (case registers found_periph of
                  None \<Rightarrow> Inl TypeError
                | Some regs \<Rightarrow>
                    (case r_name of
                       None \<Rightarrow> Inr (periph_dict p_name found_periph regs)
                     | Some rn \<Rightarrow>
                         (if rn = [] then Inr (periph_dict p_name found_periph regs)
                          else (case find (\<lambda>r. reg_name r = rn) regs of
                                  Some r \<Rightarrow> Inr (reg_dict p_name rn found_periph r)
                                | None \<Rightarrow>
                                    Inr (PDict [(''error'',
                                           PStr (''Register '' @ [CHR 0x27] @ rn @ [CHR 0x27]
                                                 @ '' not found in '' @ [CHR 0x27] @ p_name
                                                 @ [CHR 0x27] @ ''.''))])))))))"

subsection \<open>Notions used in the statements about the index\<close>

text \<open>
  A peripheral holds a register at \<open>addr\<close>: the test of both loops of \<^verbatim>\<open>resolve_address\<close>.
  A peripheral is scanned without a register list at \<open>addr\<close> when the outer loop reaches
  its inner loop and there is nothing to iterate.
\<close>

definition has_register_at :: "int \<Rightarrow> svd_peripheral \<Rightarrow> bool" where
  "has_register_at addr p =
     (base_address p \<le> addr \<and>
      (case registers p of
         None \<Rightarrow> False
       | Some regs \<Rightarrow> list_ex (\<lambda>r. address_offset r = addr - base_address p) regs))"

definition lacks_registers_at :: "int \<Rightarrow> svd_peripheral \<Rightarrow> bool" where
  "lacks_registers_at addr p = (base_address p \<le> addr \<and> registers p = None)"

text \<open>
  An example device: \<^verbatim>\<open>GPIOA\<close>, \<^verbatim>\<open>RCC\<close> at 0x40021000 with \<^verbatim>\<open>CR\<close> at offset 0, and
  a peripheral \<^verbatim>\<open>Timer0\<close> whose name is in mixed case and whose range overlaps \<^verbatim>\<open>RCC\<close>.
\<close>

definition demo_GPIOA :: svd_peripheral where
  "demo_GPIOA =
     \<lparr>periph_name = ''GPIOA'', base_address = 0x40020000,
      periph_description = Some ''General-purpose I/Os'',
      registers = Some
        [\<lparr>reg_name = ''MODER'', address_offset = 0x0, reg_description = Some ''port mode'',
          reg_fields = [\<lparr>field_name = ''MODE0'', bit_offset = 0, bit_width = 2,
                         field_description = None\<rparr>]\<rparr>,
         \<lparr>reg_name = ''ODR'', address_offset = 0x14, reg_description = None,
          reg_fields = []\<rparr>]\<rparr>"

definition demo_CR :: svd_register where
  "demo_CR =
     \<lparr>reg_name = ''CR'', address_offset = 0x0, reg_description = Some ''clock control'',
      reg_fields =
        [\<lparr>field_name = ''HSION'', bit_offset = 0, bit_width = 1,
          field_description = Some ''internal oscillator on''\<rparr>,
         \<lparr>field_name = ''HSITRIM'', bit_offset = 3, bit_width = 5,
          field_description = None\<rparr>]\<rparr>"

definition demo_RCC :: svd_peripheral where
  "demo_RCC =
     \<lparr>periph_name = ''RCC'', base_address = 0x40021000,
      periph_description = Some ''Reset and clock control'',
      registers = Some
        [demo_CR,
         \<lparr>reg_name = ''CFGR'', address_offset = 0x4, reg_description = None,
          reg_fields = []\<rparr>]\<rparr>"

definition demo_Ctrl :: svd_register where
  "demo_Ctrl =
     \<lparr>reg_name = ''Ctrl'', address_offset = 0x1000, reg_description = None, reg_fields = []\<rparr>"

definition demo_Timer0 :: svd_peripheral where
  "demo_Timer0 =
     \<lparr>periph_name = ''Timer0'', base_address = 0x40020000, periph_description = None,
      registers = Some [demo_Ctrl]\<rparr>"

definition demo_oracle :: HardwareOracle where
  "demo_oracle = \<lparr>peripherals = [demo_GPIOA, demo_RCC, demo_Timer0]\<rparr>"

text \<open>
  A second device: one peripheral \<^verbatim>\<open>HIGH\<close> whose registers \<^verbatim>\<open>R0\<close> and \<^verbatim>\<open>R1\<close> lie at the
  same offset 8.
\<close>

definition demo_R0 :: svd_register where
  "demo_R0 =
     \<lparr>reg_name = ''R0'', address_offset = 0x8, reg_description = Some ''first view'',
      reg_fields = [\<lparr>field_name = ''A'', bit_offset = 0, bit_width = 8,
                     field_description = None\<rparr>]\<rparr>"

definition demo_R1 :: svd_register where
  "demo_R1 =
     \<lparr>reg_name = ''R1'', address_offset = 0x8, reg_description = Some ''second view'',
      reg_fields = [\<lparr>field_name = ''B'', bit_offset = 4, bit_width = 4,
                     field_description = None\<rparr>]\<rparr>"

definition demo_HIGH :: svd_peripheral where
  "demo_HIGH =
     \<lparr>periph_name = ''HIGH'', base_address = 0x50000000, periph_description = None,
      registers = Some [demo_R0, demo_R1]\<rparr>"

definition demo_high_oracle :: HardwareOracle where
  "demo_high_oracle = \<lparr>peripherals = [demo_HIGH]\<rparr>"

text \<open>A third device: a peripheral \<^verbatim>\<open>DBG\<close> without a register list, in front of \<^verbatim>\<open>RCC\<close>.\<close>

definition demo_DBG :: svd_peripheral where
  "demo_DBG =
     \<lparr>periph_name = ''DBG'', base_address = 0x40000000, periph_description = None,
      registers = None\<rparr>"

definition demo_bare_oracle :: HardwareOracle where
  "demo_bare_oracle = \<lparr>peripherals = [demo_DBG, demo_RCC]\<rparr>"

section \<open>\<^verbatim>\<open>resolve_address\<close> on a store of list objects\<close>

text \<open>
  The statements of \<^verbatim>\<open>resolve_address\<close> that change an object are \<^verbatim>\<open>fields = []\<close>, which
  creates a list, and \<^verbatim>\<open>fields.append(...)\<close>, which changes one. In this second embedding
  of the method every list is an object in a store: the list \<^verbatim>\<open>self.peripherals\<close>, the
  register list of each peripheral, the field list of each register, and the lists the
  method creates. A peripheral or register names its list by the address of the list.
\<close>

datatype item =
    IPeripheral string int "string option" "nat option"
  | IRegister string int "string option" nat
  | IField svd_field
  | IValue pyval

record heap =
  cells :: "nat \<Rightarrow> item list"
  limit :: nat

text \<open>\<^verbatim>\<open>fields = []\<close>: a new list at the first address not in use.\<close>

definition new_list :: "heap \<Rightarrow> nat \<times> heap" where
  "new_list h = (limit h, h\<lparr>cells := (cells h)(limit h := []), limit := Suc (limit h)\<rparr>)"

text \<open>\<^verbatim>\<open>xs.append(x)\<close> for the list at address \<open>a\<close>.\<close>

definition list_append :: "nat \<Rightarrow> item \<Rightarrow> heap \<Rightarrow> heap" where
  "list_append a x h = h\<lparr>cells := (cells h)(a := cells h a @ [x])\<rparr>"

definition item_value :: "item \<Rightarrow> pyval" where
  "item_value x = (case x of IValue v \<Rightarrow> v | _ \<Rightarrow> PNone)"

text \<open>
  \<^verbatim>\<open>for f in reg.fields: fields.append({...})\<close>, with the list \<^verbatim>\<open>fields\<close> at address \<open>fa\<close>.
  An object in \<^verbatim>\<open>reg.fields\<close> that is no field has no attribute \<^verbatim>\<open>bit_offset\<close>.
\<close>

fun append_fields :: "nat \<Rightarrow> item list \<Rightarrow> heap \<Rightarrow> py_error option \<times> heap" where
  "append_fields fa [] h = (None, h)"
| "append_fields fa (f # fs) h =
     (case f of
        IField fld \<Rightarrow> append_fields fa fs (list_append fa (IValue (field_dict fld)) h)
      | _ \<Rightarrow> (Some AttributeError, h))"

fun search_registers_h ::
  "string \<Rightarrow> int \<Rightarrow> int \<Rightarrow> item list \<Rightarrow> heap \<Rightarrow> (py_error + pyval option) \<times> heap" where
  "search_registers_h p_name addr offset [] h = (Inr None, h)"
| "search_registers_h p_name addr offset (reg # regs) h =
     (case reg of
        IRegister r_name r_offset r_description fields_at \<Rightarrow>
          (if r_offset = offset
           then (let (fa, h1) = new_list h in
                 case append_fields fa (cells h1 fields_at) h1 of
                   (Some e, h2) \<Rightarrow> (Inl e, h2)
                 | (None, h2) \<Rightarrow>
                     (Inr (Some (PDict [(''peripheral'', PStr p_name),
                                        (''register'', PStr r_name),
                                        (''description'', py_opt_str r_description),
                                        (''address'', PStr (py_hex addr)),
                                        (''fields'', PList (map item_value (cells h2 fa)))])),
                      h2))
           else search_registers_h p_name addr offset regs h)
      | _ \<Rightarrow> (Inl AttributeError, h))"

fun search_peripherals_h ::
  "int \<Rightarrow> item list \<Rightarrow> heap \<Rightarrow> (py_error + pyval option) \<times> heap" where
  "search_peripherals_h addr [] h = (Inr None, h)"
| "search_peripherals_h addr (periph # periphs) h =
     (case periph of
        IPeripheral p_name base p_description registers_at \<Rightarrow>
          (if addr < base then search_peripherals_h addr periphs h
           else (case registers_at of
                   None \<Rightarrow> (Inl TypeError, h)
                 | Some ra \<Rightarrow>
                     (case search_registers_h p_name addr (addr - base) (cells h ra) h of
                        (Inr None, h1) \<Rightarrow> search_peripherals_h addr periphs h1
                      | (r, h1) \<Rightarrow> (r, h1))))
      | _ \<Rightarrow> (Inl AttributeError, h))"

text \<open>The method on the oracle whose list \<^verbatim>\<open>self.peripherals\<close> is at address \<open>pa\<close>.\<close>

definition resolve_address_h :: "nat \<Rightarrow> string \<Rightarrow> heap \<Rightarrow> (py_error + pyval) \<times> heap" where
  "resolve_address_h pa hex_addr h =
     (case py_int16 hex_addr of
        Inl e \<Rightarrow>
          (if e = ValueError
           then (Inr (PDict [(''error'', PStr (''Invalid address format: '' @ hex_addr))]), h)
           else (Inl e, h))
      | Inr addr \<Rightarrow>
          (case search_peripherals_h addr (cells h pa) h of
             (Inl e, h1) \<Rightarrow> (Inl e, h1)
           | (Inr (Some d), h1) \<Rightarrow> (Inr d, h1)
           | (Inr None, h1) \<Rightarrow>
               (Inr (PDict [(''status'', PStr ''No matching register found for this address.'')]),
                h1)))"

text \<open>
  The lists of the index are allocated: the address of every list the index names is
  below the first address not in use.
\<close>

definition register_allocated :: "nat \<Rightarrow> item \<Rightarrow> bool" where
  "register_allocated n x = (case x of IRegister _ _ _ fields_at \<Rightarrow> fields_at < n | _ \<Rightarrow> True)"

definition peripheral_allocated :: "heap \<Rightarrow> nat \<Rightarrow> item \<Rightarrow> bool" where
  "peripheral_allocated h n x =
     (case x of
        IPeripheral _ _ _ (Some ra) \<Rightarrow> ra < n \<and> list_all (register_allocated n) (cells h ra)
      | _ \<Rightarrow> True)"

definition index_allocated :: "heap \<Rightarrow> nat \<Rightarrow> nat \<Rightarrow> bool" where
  "index_allocated h n pa = (pa < n \<and> list_all (peripheral_allocated h n) (cells h pa))"

text \<open>The index that a store holds at \<open>pa\<close>, when every list holds objects of its kind.\<close>

definition the_field :: "item \<Rightarrow> svd_field option" where
  "the_field x = (case x of IField f \<Rightarrow> Some f | _ \<Rightarrow> None)"

definition the_register :: "heap \<Rightarrow> item \<Rightarrow> svd_register option" where
  "the_register h x =
     (case x of
        IRegister r_name r_offset r_description fields_at \<Rightarrow>
          map_option
            (\<lambda>fs. \<lparr>reg_name = r_name, address_offset = r_offset,
                   reg_description = r_description, reg_fields = fs\<rparr>)
            (those (map the_field (cells h fields_at)))
      | _ \<Rightarrow> None)"

definition the_peripheral :: "heap \<Rightarrow> item \<Rightarrow> svd_peripheral option" where
  "the_peripheral h x =
     (case x of
        IPeripheral p_name base p_description registers_at \<Rightarrow>
          (case registers_at of
             None \<Rightarrow>
               Some \<lparr>periph_name = p_name, base_address = base,
                     periph_description = p_description, registers = None\<rparr>
           | Some ra \<Rightarrow>
               map_option
                 (\<lambda>rs. \<lparr>periph_name = p_name, base_address = base,
                        periph_description = p_description, registers = Some rs\<rparr>)
                 (those (map (the_register h) (cells h ra))))
      | _ \<Rightarrow> None)"

definition the_oracle :: "heap \<Rightarrow> nat \<Rightarrow> HardwareOracle option" where
  "the_oracle h pa =
     map_option (\<lambda>ps. \<lparr>peripherals = ps\<rparr>) (those (map (the_peripheral h) (cells h pa)))"

text \<open>An example store: \<^verbatim>\<open>RCC\<close> with \<^verbatim>\<open>CR\<close> and its two fields, in three lists.\<close>

definition demo_heap :: heap where
  "demo_heap =
     \<lparr>cells = (\<lambda>a. [])
        (0 := [IPeripheral ''RCC'' 0x40021000 (Some ''Reset and clock control'') (Some 1)],
         1 := [IRegister ''CR'' 0x0 (Some ''clock control'') 2],
         2 := [IField \<lparr>field_name = ''HSION'', bit_offset = 0, bit_width = 1,
                       field_description = Some ''internal oscillator on''\<rparr>,
               IField \<lparr>field_name = ''HSITRIM'', bit_offset = 3, bit_width = 5,
                       field_description = None\<rparr>]),
      limit = 3\<rparr>"

section \<open>The debug session (agent_tools.py)\<close>

text \<open>
  A \<^verbatim>\<open>GdbController\<close> is the debugger subprocess it owns together with the commands
  written to it so far. The session state is the \<^verbatim>\<open>GDBInterface\<close> object together
  with the host's processes: the emulator process groups and the debugger processes
  that have been launched and have not exited, and the emulator process groups that
  have been sent \<^verbatim>\<open>SIGTERM\<close>. Every launch yields a process identity that was never used
  before. A process exits when the host says so, not when a method returns.
\<close>

record GdbController =
  gdb_pid :: nat
  written :: "string list"

record GDBInterface =
  elf_path :: string
  qemu_proc :: "nat option"
  gdbmi :: "GdbController option"

record session = GDBInterface +
  emulators :: "nat list"
  signalled :: "nat list"
  debuggers :: "nat list"
  next_pid :: nat

text \<open>\<^verbatim>\<open>GDBInterface(elf_path)\<close> on a host that runs neither an emulator nor a debugger.\<close>

definition GDBInterface_init :: "string \<Rightarrow> session" where
  "GDBInterface_init path =
     \<lparr>elf_path = path, qemu_proc = None, gdbmi = None,
      emulators = [], signalled = [], debuggers = [], next_pid = 0\<rparr>"

subsection \<open>Life cycle\<close>

text \<open>
  The two \<^verbatim>\<open>if\<close> blocks of \<^verbatim>\<open>stop_all\<close>. The first sends \<^verbatim>\<open>SIGTERM\<close> to the emulator's
  process group with \<^verbatim>\<open>os.killpg\<close> and clears the handle; it does not wait for the
  group to exit. The second calls \<^verbatim>\<open>gdbmi.exit()\<close>, which terminates the debugger
  process and waits for it, and clears the handle.
\<close>

definition kill_emulator :: "session \<Rightarrow> session" where
  "kill_emulator s =
     (case qemu_proc s of
        Some p \<Rightarrow> s\<lparr>qemu_proc := None, signalled := signalled s @ [p]\<rparr>
      | None \<Rightarrow> s)"

definition exit_debugger :: "session \<Rightarrow> session" where
  "exit_debugger s =
     (case gdbmi s of
        Some g \<Rightarrow> s\<lparr>gdbmi := None, debuggers := removeAll (gdb_pid g) (debuggers s)\<rparr>
      | None \<Rightarrow> s)"

definition stop_all :: "session \<Rightarrow> session" where
  "stop_all s = exit_debugger (kill_emulator s)"

text \<open>\<^verbatim>\<open>self.qemu_proc = subprocess.Popen(["make", "startqemu"], preexec_fn=os.setsid, ...)\<close>\<close>

definition launch_emulator :: "session \<Rightarrow> session" where
  "launch_emulator s =
     s\<lparr>qemu_proc := Some (next_pid s),
       emulators := emulators s @ [next_pid s],
       next_pid := Suc (next_pid s)\<rparr>"

text \<open>\<^verbatim>\<open>self.gdbmi = GdbController(["gdb-multiarch", "-q", "--interpreter=mi3"])\<close>\<close>

definition launch_debugger :: "session \<Rightarrow> session" where
  "launch_debugger s =
     s\<lparr>gdbmi := Some \<lparr>gdb_pid = next_pid s, written = []\<rparr>,
       debuggers := debuggers s @ [next_pid s],
       next_pid := Suc (next_pid s)\<rparr>"

text \<open>
  \<^verbatim>\<open>self.gdbmi.write(cmd)\<close>: the attribute \<^verbatim>\<open>write\<close> is looked up on \<^verbatim>\<open>self.gdbmi\<close>, which
  raises \<^verbatim>\<open>AttributeError\<close> when that is \<^verbatim>\<open>None\<close>. Otherwise the command goes to the
  debugger, whose answer \<open>dbg\<close> is a function of everything written so far.
\<close>

definition gdbmi_write ::
  "(string list \<Rightarrow> 'r) \<Rightarrow> session \<Rightarrow> string \<Rightarrow> (py_error + 'r) \<times> session" where
  "gdbmi_write dbg s cmd =
     (case gdbmi s of
        None \<Rightarrow> (Inl AttributeError, s)
      | Some g \<Rightarrow>
          (Inr (dbg (written g @ [cmd])),
           s\<lparr>gdbmi := Some (g\<lparr>written := written g @ [cmd]\<rparr>)\<rparr>))"

text \<open>The two bootstrap commands of \<^verbatim>\<open>restart_environment\<close>; their answers are dropped.\<close>

definition bootstrap_symbols :: "session \<Rightarrow> session" where
  "bootstrap_symbols s =
     snd (gdbmi_write (\<lambda>_. ()) s (''-file-exec-and-symbols '' @ elf_path s))"

definition bootstrap_connect :: "session \<Rightarrow> session" where
  "bootstrap_connect s = snd (gdbmi_write (\<lambda>_. ()) s ''target remote localhost:1234'')"

definition restart_environment :: "session \<Rightarrow> string \<times> session" where
  "restart_environment s =
     (let s1 = stop_all s;
          s2 = launch_emulator s1;
          s3 = launch_debugger s2;
          s4 = bootstrap_symbols s3;
          s5 = bootstrap_connect s4
      in (''Environment restarted. CPU is halted at entry point.'', s5))"

definition start :: "session \<Rightarrow> session" where
  "start s = (if gdbmi s = None then snd (restart_environment s) else s)"

text \<open>
  The states the session passes through during one \<^verbatim>\<open>restart_environment\<close>, one after
  each statement: the two blocks of \<^verbatim>\<open>stop_all\<close>, the two launches, the two commands.
\<close>

definition restart_environment_states :: "session \<Rightarrow> session list" where
  "restart_environment_states s =
     (let s0 = kill_emulator s;
          s1 = exit_debugger s0;
          s2 = launch_emulator s1;
          s3 = launch_debugger s2;
          s4 = bootstrap_symbols s3;
          s5 = bootstrap_connect s4
      in [s0, s1, s2, s3, s4, s5])"

datatype lifecycle_op = Start | Restart | Stop

fun apply_op :: "lifecycle_op \<Rightarrow> session \<Rightarrow> session" where
  "apply_op Start s = start s"
| "apply_op Restart s = snd (restart_environment s)"
| "apply_op Stop s = stop_all s"

text \<open>The states passed through while one operation runs, the last one being its result.\<close>

fun op_states :: "lifecycle_op \<Rightarrow> session \<Rightarrow> session list" where
  "op_states Start s = (if gdbmi s = None then restart_environment_states s else [s])"
| "op_states Restart s = restart_environment_states s"
| "op_states Stop s = [kill_emulator s, stop_all s]"

text \<open>
  What happens to a session: a call of one of the three operations, or the host
  reporting that an emulator process group or a debugger process has exited.
\<close>

datatype event = Call lifecycle_op | EmulatorExits nat | DebuggerExits nat

fun step :: "event \<Rightarrow> session \<Rightarrow> session" where
  "step (Call x) s = apply_op x s"
| "step (EmulatorExits p) s = s\<lparr>emulators := removeAll p (emulators s)\<rparr>"
| "step (DebuggerExits p) s = s\<lparr>debuggers := removeAll p (debuggers s)\<rparr>"

fun event_states :: "event \<Rightarrow> session \<Rightarrow> session list" where
  "event_states (Call x) s = op_states x s"
| "event_states e s = [step e s]"

fun run :: "event list \<Rightarrow> session \<Rightarrow> session" where
  "run [] s = s"
| "run (e # es) s = run es (step e s)"

definition at_most_one :: "session \<Rightarrow> bool" where
  "at_most_one s = (length (emulators s) \<le> 1 \<and> length (debuggers s) \<le> 1)"

text \<open>The live emulators that have not been sent \<^verbatim>\<open>SIGTERM\<close>.\<close>

definition running_emulators :: "session \<Rightarrow> nat list" where
  "running_emulators s = filter (\<lambda>p. p \<notin> set (signalled s)) (emulators s)"

definition at_most_one_running :: "session \<Rightarrow> bool" where
  "at_most_one_running s = (length (running_emulators s) \<le> 1 \<and> length (debuggers s) \<le> 1)"

text \<open>
  The invariant behind the bound: a live emulator that was not signalled is the one the
  object holds, a live debugger is the one the object holds, no process is listed twice,
  and every process identity in the state was handed out before.
\<close>

definition tracked :: "session \<Rightarrow> bool" where
  "tracked s =
     (set (running_emulators s) \<subseteq> set_option (qemu_proc s) \<and>
      set (debuggers s) \<subseteq> set_option (map_option gdb_pid (gdbmi s)) \<and>
      distinct (emulators s) \<and> distinct (debuggers s) \<and>
      list_all (\<lambda>p. p < next_pid s)
        (emulators s @ signalled s @ debuggers s
         @ (case qemu_proc s of None \<Rightarrow> [] | Some p \<Rightarrow> [p])))"

subsection \<open>The command operations\<close>

definition dquote :: string where
  "dquote = [CHR 0x22]"

definition step_instruction :: "(string list \<Rightarrow> 'r) \<Rightarrow> session \<Rightarrow> (py_error + 'r) \<times> session" where
  "step_instruction dbg s = gdbmi_write dbg s ''-exec-next-instruction''"

definition continue_execution :: "(string list \<Rightarrow> 'r) \<Rightarrow> session \<Rightarrow> (py_error + 'r) \<times> session" where
  "continue_execution dbg s = gdbmi_write dbg s ''-exec-continue''"

definition get_registers :: "(string list \<Rightarrow> 'r) \<Rightarrow> session \<Rightarrow> (py_error + 'r) \<times> session" where
  "get_registers dbg s = gdbmi_write dbg s ''-data-list-register-values x''"

definition read_memory ::
  "(string list \<Rightarrow> 'r) \<Rightarrow> session \<Rightarrow> string \<Rightarrow> int \<Rightarrow> (py_error + 'r) \<times> session" where
  "read_memory dbg s address len =
     gdbmi_write dbg s (''-data-read-memory-bytes '' @ address @ '' '' @ py_str_int len)"

definition set_breakpoint ::
  "(string list \<Rightarrow> 'r) \<Rightarrow> session \<Rightarrow> string \<Rightarrow> (py_error + 'r) \<times> session" where
  "set_breakpoint dbg s location = gdbmi_write dbg s (''-break-insert '' @ location)"

definition backtrace :: "(string list \<Rightarrow> 'r) \<Rightarrow> session \<Rightarrow> (py_error + 'r) \<times> session" where
  "backtrace dbg s = gdbmi_write dbg s ''-stack-list-frames''"

definition evaluate_expression ::
  "(string list \<Rightarrow> 'r) \<Rightarrow> session \<Rightarrow> string \<Rightarrow> (py_error + 'r) \<times> session" where
  "evaluate_expression dbg s expression =
     gdbmi_write dbg s (''-data-evaluate-expression '' @ dquote @ expression @ dquote)"

text \<open>
  The class body defines \<^verbatim>\<open>write_register\<close> and \<^verbatim>\<open>write_memory\<close> twice. A later
  \<^verbatim>\<open>def\<close> rebinds the name, so the methods of the class are the second definitions;
  the first ones are kept here under the suffix \<open>_shadowed\<close>.
\<close>

definition write_register_shadowed ::
  "(string list \<Rightarrow> 'r) \<Rightarrow> session \<Rightarrow> string \<Rightarrow> string \<Rightarrow> (py_error + 'r) \<times> session" where
  "write_register_shadowed dbg s register_name val =
     gdbmi_write dbg s (''-gdb-set $'' @ register_name @ ''='' @ val)"

definition type_map :: "int \<Rightarrow> string option" where
  "type_map = map_of [(1, ''char''), (2, ''short''), (4, ''int''), (8, ''long long'')]"

definition write_memory_shadowed ::
  "(string list \<Rightarrow> 'r) \<Rightarrow> session \<Rightarrow> string \<Rightarrow> string \<Rightarrow> int \<Rightarrow> (py_error + 'r) \<times> session" where
  "write_memory_shadowed dbg s address val width =
     (let c_type = (case type_map width of Some t \<Rightarrow> t | None \<Rightarrow> ''int'');
          cmd = ''set *('' @ c_type @ ''*)'' @ address @ '' = '' @ val
      in gdbmi_write dbg s (''-interpreter-exec console '' @ dquote @ cmd @ dquote))"

definition write_register ::
  "(string list \<Rightarrow> 'r) \<Rightarrow> session \<Rightarrow> string \<Rightarrow> string \<Rightarrow> (py_error + 'r) \<times> session" where
  "write_register dbg s register_id val =
     gdbmi_write dbg s (''-gdb-set $'' @ register_id @ '' = '' @ val)"

definition write_memory ::
  "(string list \<Rightarrow> 'r) \<Rightarrow> session \<Rightarrow> string \<Rightarrow> string \<Rightarrow> (py_error + 'r) \<times> session" where
  "write_memory dbg s address val =
     gdbmi_write dbg s
       (''interpreter-exec console '' @ dquote @ ''set {int}'' @ address @ '' = '' @ val @ dquote)"

text \<open>
  A call \<^verbatim>\<open>write_memory(address, value)\<close> or \<^verbatim>\<open>write_memory(address, value, width)\<close>:
  the method of the class takes no third argument, so Python raises \<^verbatim>\<open>TypeError\<close>
  before the body runs when a width is passed.
\<close>

definition write_memory_call ::
  "(string list \<Rightarrow> 'r) \<Rightarrow> session \<Rightarrow> string \<Rightarrow> string \<Rightarrow> int option
     \<Rightarrow> (py_error + 'r) \<times> session" where
  "write_memory_call dbg s address val width =
     (case width of
        None \<Rightarrow> write_memory dbg s address val
      | Some w \<Rightarrow> (Inl TypeError, s))"

text \<open>The command operations registered as tools in main.py, as one call interface.\<close>

datatype command =
    StepInstruction
  | ContinueExecution
  | GetRegisters
  | ReadMemory string int
  | SetBreakpoint string
  | Backtrace
  | EvaluateExpression string
  | WriteRegister string string
  | WriteMemory string string

fun invoke :: "(string list \<Rightarrow> 'r) \<Rightarrow> command \<Rightarrow> session \<Rightarrow> (py_error + 'r) \<times> session" where
  "invoke dbg StepInstruction s = step_instruction dbg s"
| "invoke dbg ContinueExecution s = continue_execution dbg s"
| "invoke dbg GetRegisters s = get_registers dbg s"
| "invoke dbg (ReadMemory address len) s = read_memory dbg s address len"
| "invoke dbg (SetBreakpoint location) s = set_breakpoint dbg s location"
| "invoke dbg Backtrace s = backtrace dbg s"
| "invoke dbg (EvaluateExpression expression) s = evaluate_expression dbg s expression"
| "invoke dbg (WriteRegister register_id val) s = write_register dbg s register_id val"
| "invoke dbg (WriteMemory address val) s = write_memory dbg s address val"

text \<open>The last command the debugger received, if any.\<close>

definition last_written :: "session \<Rightarrow> string option" where
  "last_written s =
     (case gdbmi s of
        None \<Rightarrow> None
      | Some g \<Rightarrow> (if written g = [] then None else Some (last (written g))))"

text \<open>
  GDB/MI has two commands that step by machine instruction: \<^verbatim>\<open>-exec-step-instruction\<close>
  (the CLI's \<^verbatim>\<open>stepi\<close>) executes one instruction, and \<^verbatim>\<open>-exec-next-instruction\<close> (the
  CLI's \<^verbatim>\<open>nexti\<close>) does the same except on a call instruction, where it runs until the
  called function returns.
\<close>

definition mi_stepi :: string where
  "mi_stepi = ''-exec-step-instruction''"

definition mi_nexti :: string where
  "mi_nexti = ''-exec-next-instruction''"

text \<open>An example: a debugger that answers nothing, and the session after one restart.\<close>

definition demo_dbg :: "string list \<Rightarrow> pyval" where
  "demo_dbg cmds = PList []"

definition demo_session :: session where
  "demo_session = snd (restart_environment (GDBInterface_init ''firmware/app.elf''))"

section \<open>Properties of the descriptor index\<close>

lemmas py_int16_eval = py_int16_def strip_sign_def strip_prefix16_def py_isspace_def hex_digit_value_def
lemmas py_hex_eval = py_hex_def digits_of.simps digit_char_def
lemmas demo_defs = demo_oracle_def demo_GPIOA_def demo_RCC_def demo_Timer0_def demo_CR_def demo_Ctrl_def
  demo_high_oracle_def demo_HIGH_def demo_R0_def demo_R1_def demo_bare_oracle_def demo_DBG_def

subsection \<open>\<^verbatim>\<open>hex\<close> and \<^verbatim>\<open>int(_, 16)\<close>\<close>

text \<open>The string that \<^verbatim>\<open>hex\<close> prints reads back as the same integer.\<close>

lemma hex_digit_value_digit_char:
  "d < 16 \<Longrightarrow> hex_digit_value (digit_char d) = Some d"
proof -
  assume "d < 16"
  then have "d \<in> {0,1,2,3,4,5,6,7,8,9,10,11,12,13,14,15}" by simp arith
  then show ?thesis
    by (auto simp: hex_digit_value_def digit_char_def)
qed

lemma hex_digit_not_underscore: "hex_digit_value c = Some d \<Longrightarrow> c \<noteq> CHR ''_''"
  by (auto simp: hex_digit_value_def)

lemma scan_hex_digits:
  "list_all (\<lambda>c. hex_digit_value c \<noteq> None) ds \<Longrightarrow> ds \<noteq> [] \<Longrightarrow>
   scan_hex b acc ds = Some (foldl (\<lambda>a c. 16 * a + the (hex_digit_value c)) acc ds, [])"
proof (induction ds arbitrary: b acc)
  case Nil
  then show ?case by simp
next
  case (Cons c ds)
  then obtain d where d: "hex_digit_value c = Some d" by auto
  show ?case
  proof (cases ds)
    case Nil
    with d show ?thesis using hex_digit_not_underscore[OF d] by simp
  next
    case (Cons e es)
    with Cons.IH[of False "16 * acc + d"] Cons.prems d hex_digit_not_underscore[OF d]
    show ?thesis by simp
  qed
qed

lemma digits_of_hex:
  "list_all (\<lambda>c. hex_digit_value c \<noteq> None) (digits_of 16 m)
   \<and> digits_of 16 m \<noteq> []
   \<and> foldl (\<lambda>a c. 16 * a + the (hex_digit_value c)) 0 (digits_of 16 m) = m"
proof (induction "16::nat" m rule: digits_of.induct)
  case (1 n)
  show ?case
  proof (cases "n < 16")
    case True
    then show ?thesis
      by (simp add: digits_of.simps[of 16 n] hex_digit_value_digit_char)
  next
    case False
    then have IH: "list_all (\<lambda>c. hex_digit_value c \<noteq> None) (digits_of 16 (n div 16))
       \<and> digits_of 16 (n div 16) \<noteq> []
       \<and> foldl (\<lambda>a c. 16 * a + the (hex_digit_value c)) 0 (digits_of 16 (n div 16)) = n div 16"
      using "1" by simp
    have m: "n mod 16 < 16" by simp
    show ?thesis
      using False IH hex_digit_value_digit_char[OF m]
      by (simp add: digits_of.simps[of 16 n])
  qed
qed

lemma py_int16_hex_digits:
  assumes "list_all (\<lambda>c. hex_digit_value c \<noteq> None) ds" and "ds \<noteq> []"
  shows "py_int16 (''0x'' @ ds) = Inr (int (foldl (\<lambda>a c. 16 * a + the (hex_digit_value c)) 0 ds))"
    and "py_int16 (''-0x'' @ ds) = Inr (- int (foldl (\<lambda>a c. 16 * a + the (hex_digit_value c)) 0 ds))"
proof -
  obtain c cs where ds: "ds = c # cs" using assms(2) by (cases ds) auto
  then obtain d where d: "hex_digit_value c = Some d" using assms(1) by auto
  have c: "c \<noteq> CHR ''_''" using hex_digit_not_underscore[OF d] .
  have sp: "strip_prefix16 (''0x'' @ ds) = ds"
    using c by (simp add: strip_prefix16_def ds)
  have sc: "scan_hex False 0 ds = Some (foldl (\<lambda>a c. 16 * a + the (hex_digit_value c)) 0 ds, [])"
    using scan_hex_digits[OF assms, of False 0] .
  have sp0: "\<not> py_isspace CHR ''0''" "\<not> py_isspace CHR ''-''"
    by (simp_all add: py_isspace_def)
  show "py_int16 (''0x'' @ ds) = Inr (int (foldl (\<lambda>a c. 16 * a + the (hex_digit_value c)) 0 ds))"
    using sp sc c sp0 by (simp add: py_int16_def strip_sign_def ds)
  show "py_int16 (''-0x'' @ ds) = Inr (- int (foldl (\<lambda>a c. 16 * a + the (hex_digit_value c)) 0 ds))"
    using sp sc c sp0 by (simp add: py_int16_def strip_sign_def ds)
qed

lemma py_int16_py_hex: "py_int16 (py_hex n) = Inr n"
proof (cases "n < 0")
  case True
  with py_int16_hex_digits(2)[of "digits_of 16 (nat (- n))"] digits_of_hex[of "nat (- n)"]
  show ?thesis by (simp add: py_hex_def)
next
  case False
  with py_int16_hex_digits(1)[of "digits_of 16 (nat n)"] digits_of_hex[of "nat n"]
  show ?thesis by (simp add: py_hex_def)
qed

subsection \<open>\<^verbatim>\<open>resolve_address\<close>: the search and its results\<close>

lemma py_int16_error: "py_int16 s = Inl e \<Longrightarrow> e = ValueError"
  by (auto simp: py_int16_def Let_def split: prod.splits list.splits option.splits if_splits)

lemma search_registers_find:
  "search_registers periph addr offset regs =
     map_option (\<lambda>r. match_dict periph r addr) (find (\<lambda>r. address_offset r = offset) regs)"
  by (induction regs) auto

lemma find_None_list_ex: "find P xs = None \<longleftrightarrow> \<not> list_ex P xs"
  by (induction xs) auto

lemma has_register_at_find:
  assumes "has_register_at addr p"
  shows "\<exists>regs r. registers p = Some regs
           \<and> find (\<lambda>r. address_offset r = addr - base_address p) regs = Some r"
proof -
  from assms obtain regs where regs: "registers p = Some regs"
    and ex: "list_ex (\<lambda>r. address_offset r = addr - base_address p) regs"
    by (auto simp: has_register_at_def split: option.splits)
  from ex obtain r where "find (\<lambda>r. address_offset r = addr - base_address p) regs = Some r"
    using find_None_list_ex[of "\<lambda>r. address_offset r = addr - base_address p" regs] by auto
  with regs show ?thesis by blast
qed

text \<open>
  The outer loop stops at the first peripheral, at or below the address, that holds a
  register at the address or has no register list.
\<close>

lemma search_peripherals_find:
  "search_peripherals addr ps =
     (case find (\<lambda>p. has_register_at addr p \<or> lacks_registers_at addr p) ps of
        None \<Rightarrow> Inr None
      | Some p \<Rightarrow>
          (case registers p of
             None \<Rightarrow> Inl TypeError
           | Some regs \<Rightarrow>
               Inr (map_option (\<lambda>r. match_dict p r addr)
                      (find (\<lambda>r. address_offset r = addr - base_address p) regs))))"
proof (induction ps)
  case Nil
  show ?case by simp
next
  case (Cons p ps)
  show ?case
  proof (cases "addr < base_address p")
    case True
    with Cons.IH show ?thesis
      by (simp add: has_register_at_def lacks_registers_at_def)
  next
    case below: False
    show ?thesis
    proof (cases "registers p")
      case None
      with below show ?thesis
        by (simp add: has_register_at_def lacks_registers_at_def)
    next
      case (Some regs)
      show ?thesis
      proof (cases "find (\<lambda>r. address_offset r = addr - base_address p) regs")
        case None
        then have "\<not> has_register_at addr p"
          using Some by (simp add: has_register_at_def find_None_list_ex)
        with None Some below Cons.IH show ?thesis
          by (simp add: lacks_registers_at_def search_registers_find)
      next
        case (Some r)
        then have "list_ex (\<lambda>r. address_offset r = addr - base_address p) regs"
          using find_None_list_ex[of "\<lambda>r. address_offset r = addr - base_address p" regs]
          by simp
        then have "has_register_at addr p"
          using \<open>registers p = Some regs\<close> below by (simp add: has_register_at_def)
        with Some \<open>registers p = Some regs\<close> below show ?thesis
          by (simp add: search_registers_find)
      qed
    qed
  qed
qed

lemma find_first_stop:
  assumes "list_all (\<lambda>Q. \<not> lacks_registers_at addr Q)
             (takeWhile (\<lambda>Q. \<not> has_register_at addr Q) ps)"
  shows "find (\<lambda>p. has_register_at addr p \<or> lacks_registers_at addr p) ps
           = find (has_register_at addr) ps"
  using assms by (induction ps) auto

text \<open>
  Claim C1, as the code has it. Let the string \<open>a\<close> read as the address \<open>addr\<close>, and let
  \<open>addr\<close> be the base of a peripheral \<open>P\<close> of the index plus the offset of one of its
  registers \<open>R\<close>, at or above the base of \<open>P\<close>. Let every peripheral in front of the
  first one that holds a register at \<open>addr\<close> either lie above \<open>addr\<close> or have a register
  list. Then \<^verbatim>\<open>resolve_address\<close> returns a match: its peripheral \<open>P'\<close> is the first one in
  document order that holds a register at \<open>addr\<close>, its register \<open>R'\<close> is the first
  register of \<open>P'\<close> at that offset, and the result carries the name of \<open>P'\<close>, the name of
  \<open>R'\<close> and the whole field list of \<open>R'\<close>, each field with its name, bit offset, bit
  width and description. Where \<open>P\<close> is the only peripheral holding a register at \<open>addr\<close>,
  \<open>P'\<close> is \<open>P\<close>; where moreover \<open>R\<close> is its only register at that offset, \<open>R'\<close> is \<open>R\<close>.
\<close>

theorem resolve_address_first_match:
  assumes "py_int16 a = Inr addr"
    and "P \<in> set (peripherals self)" and "registers P = Some regs" and "R \<in> set regs"
    and "base_address P \<le> addr" and "addr = base_address P + address_offset R"
    and "list_all (\<lambda>Q. \<not> lacks_registers_at addr Q)
           (takeWhile (\<lambda>Q. \<not> has_register_at addr Q) (peripherals self))"
  shows "\<exists>P' regs' R'. find (has_register_at addr) (peripherals self) = Some P'
           \<and> registers P' = Some regs'
           \<and> find (\<lambda>r. address_offset r = addr - base_address P') regs' = Some R'
           \<and> base_address P' \<le> addr \<and> addr = base_address P' + address_offset R'
           \<and> resolve_address self a = Inr (match_dict P' R' addr)
           \<and> dict_get (match_dict P' R' addr) ''peripheral'' = Some (PStr (periph_name P'))
           \<and> dict_get (match_dict P' R' addr) ''register'' = Some (PStr (reg_name R'))
           \<and> dict_get (match_dict P' R' addr) ''fields'' =
               Some (PList (map (\<lambda>f. PDict [(''name'', PStr (field_name f)),
                                             (''bit_offset'', PInt (bit_offset f)),
                                             (''bit_width'', PInt (bit_width f)),
                                             (''description'', py_opt_str (field_description f))])
                                (reg_fields R')))
           \<and> ((\<forall>Q \<in> set (peripherals self). has_register_at addr Q \<longrightarrow> Q = P) \<longrightarrow> P' = P)
           \<and> (P' = P \<and> (\<forall>Q \<in> set regs. address_offset Q = address_offset R \<longrightarrow> Q = R)
                \<longrightarrow> R' = R)"
proof -
  have "has_register_at addr P"
    using assms(3-6) by (auto simp: has_register_at_def list_ex_iff)
  with assms(2) have "list_ex (has_register_at addr) (peripherals self)"
    by (auto simp: list_ex_iff)
  then obtain P' where P': "find (has_register_at addr) (peripherals self) = Some P'"
    using find_None_list_ex[of "has_register_at addr" "peripherals self"] by auto
  then have hP': "has_register_at addr P'"
    by (auto simp: find_Some_iff)
  then obtain regs' R' where regs': "registers P' = Some regs'"
    and R': "find (\<lambda>r. address_offset r = addr - base_address P') regs' = Some R'"
    using has_register_at_find by blast
  from R' have off: "address_offset R' = addr - base_address P'"
    by (auto simp: find_Some_iff)
  have stop: "find (\<lambda>p. has_register_at addr p \<or> lacks_registers_at addr p) (peripherals self)
                = Some P'"
    using find_first_stop[OF assms(7)] P' by simp
  have res: "resolve_address self a = Inr (match_dict P' R' addr)"
    by (simp add: resolve_address_def assms(1) search_peripherals_find stop regs' R')
  have flds: "map field_dict (reg_fields R') = map (\<lambda>f. PDict [(''name'', PStr (field_name f)),
                                             (''bit_offset'', PInt (bit_offset f)),
                                             (''bit_width'', PInt (bit_width f)),
                                             (''description'', py_opt_str (field_description f))])
                                (reg_fields R')"
    by (simp add: field_dict_def)
  have inP': "P' \<in> set (peripherals self)"
    using P' by (auto simp: find_Some_iff)
  have inR': "R' \<in> set regs'"
    using R' by (auto simp: find_Some_iff)
  have uP: "(\<forall>Q \<in> set (peripherals self). has_register_at addr Q \<longrightarrow> Q = P) \<longrightarrow> P' = P"
    using inP' hP' by blast
  have uR: "P' = P \<and> (\<forall>Q \<in> set regs. address_offset Q = address_offset R \<longrightarrow> Q = R)
              \<longrightarrow> R' = R"
    using inR' off regs' assms(3,6) by auto
  have main: "find (has_register_at addr) (peripherals self) = Some P'
           \<and> registers P' = Some regs'
           \<and> find (\<lambda>r. address_offset r = addr - base_address P') regs' = Some R'
           \<and> base_address P' \<le> addr \<and> addr = base_address P' + address_offset R'
           \<and> resolve_address self a = Inr (match_dict P' R' addr)"
    using P' regs' R' hP' off res by (simp add: has_register_at_def)
  have gets: "dict_get (match_dict P' R' addr) ''peripheral'' = Some (PStr (periph_name P'))
           \<and> dict_get (match_dict P' R' addr) ''register'' = Some (PStr (reg_name R'))
           \<and> dict_get (match_dict P' R' addr) ''fields'' = Some (PList (map field_dict (reg_fields R')))"
    by (simp add: match_dict_def dict_get_def)
  show ?thesis
    apply (rule exI[of _ P'], rule exI[of _ regs'], rule exI[of _ R'])
    using main gets uP uR unfolding flds by blast
qed

theorem resolve_address_first_match_witness:
  "py_int16 ''0x40021000'' = Inr 0x40021000
   \<and> demo_Timer0 \<in> set (peripherals demo_oracle) \<and> registers demo_Timer0 = Some [demo_Ctrl]
   \<and> demo_Ctrl \<in> set [demo_Ctrl]
   \<and> base_address demo_Timer0 \<le> 0x40021000
   \<and> 0x40021000 = base_address demo_Timer0 + address_offset demo_Ctrl
   \<and> list_all (\<lambda>Q. \<not> lacks_registers_at 0x40021000 Q)
        (takeWhile (\<lambda>Q. \<not> has_register_at 0x40021000 Q) (peripherals demo_oracle))
   \<and> resolve_address demo_oracle ''0x40021000'' =
       Inr (PDict [(''peripheral'', PStr ''RCC''), (''register'', PStr ''CR''),
                   (''description'', PStr ''clock control''),
                   (''address'', PStr ''0x40021000''),
                   (''fields'',
                    PList [PDict [(''name'', PStr ''HSION''), (''bit_offset'', PInt 0),
                                  (''bit_width'', PInt 1),
                                  (''description'', PStr ''internal oscillator on'')],
                           PDict [(''name'', PStr ''HSITRIM''), (''bit_offset'', PInt 3),
                                  (''bit_width'', PInt 5), (''description'', PNone)]])])"
proof -
  have h1: "py_int16 ''0x40021000'' = Inr 0x40021000"
    by (simp add: py_int16_eval)
  have h2: "demo_Timer0 \<in> set (peripherals demo_oracle)"
    by (simp add: demo_oracle_def)
  have h3: "registers demo_Timer0 = Some [demo_Ctrl]"
    by (simp add: demo_Timer0_def)
  have h4: "demo_Ctrl \<in> set [demo_Ctrl]"
    by simp
  have h5: "base_address demo_Timer0 \<le> 0x40021000"
    by (simp add: demo_Timer0_def)
  have h6: "(0x40021000::int) = base_address demo_Timer0 + address_offset demo_Ctrl"
    by (simp add: demo_Timer0_def demo_Ctrl_def)
  have h7: "list_all (\<lambda>Q. \<not> lacks_registers_at 0x40021000 Q)
        (takeWhile (\<lambda>Q. \<not> has_register_at 0x40021000 Q) (peripherals demo_oracle))"
    by (simp add: demo_oracle_def has_register_at_def lacks_registers_at_def demo_GPIOA_def
          demo_RCC_def demo_CR_def)
  have f: "find (has_register_at 0x40021000) (peripherals demo_oracle) = Some demo_RCC"
    by (simp add: demo_oracle_def has_register_at_def demo_GPIOA_def demo_RCC_def demo_CR_def)
  have g: "\<And>rs. registers demo_RCC = Some rs \<Longrightarrow>
             find (\<lambda>r. address_offset r = 0x40021000 - base_address demo_RCC) rs = Some demo_CR"
    by (auto simp: demo_RCC_def demo_CR_def)
  have d: "match_dict demo_RCC demo_CR 0x40021000 =
       PDict [(''peripheral'', PStr ''RCC''), (''register'', PStr ''CR''),
                   (''description'', PStr ''clock control''),
                   (''address'', PStr ''0x40021000''),
                   (''fields'',
                    PList [PDict [(''name'', PStr ''HSION''), (''bit_offset'', PInt 0),
                                  (''bit_width'', PInt 1),
                                  (''description'', PStr ''internal oscillator on'')],
                           PDict [(''name'', PStr ''HSITRIM''), (''bit_offset'', PInt 3),
                                  (''bit_width'', PInt 5), (''description'', PNone)]])]"
    by (simp add: match_dict_def demo_RCC_def demo_CR_def field_dict_def py_opt_str_def py_hex_eval)
  from resolve_address_first_match [OF h1 h2 h3 h4 h5 h6 h7]
  obtain P' regs' R' where
    "find (has_register_at 0x40021000) (peripherals demo_oracle) = Some P'"
    "registers P' = Some regs'"
    "find (\<lambda>r. address_offset r = 0x40021000 - base_address P') regs' = Some R'"
    "resolve_address demo_oracle ''0x40021000'' = Inr (match_dict P' R' 0x40021000)"
    by blast
  with f g have
    "resolve_address demo_oracle ''0x40021000'' = Inr (match_dict demo_RCC demo_CR 0x40021000)"
    by auto
  then show ?thesis
    using h1 h2 h3 h5 h6 h7 d by simp
qed

text \<open>
  Claim C1 as stated fails where two registers of one peripheral share an offset. In the
  second example device the address 0x50000008 is the base of \<^verbatim>\<open>HIGH\<close> plus the offset
  of its register \<^verbatim>\<open>R1\<close>, and \<^verbatim>\<open>resolve_address\<close> returns the name and the field list of
  \<^verbatim>\<open>R0\<close>.
\<close>

theorem resolve_address_shared_offset:
  "py_int16 ''0x50000008'' = Inr 0x50000008
   \<and> demo_HIGH \<in> set (peripherals demo_high_oracle)
   \<and> registers demo_HIGH = Some [demo_R0, demo_R1]
   \<and> base_address demo_HIGH \<le> 0x50000008
   \<and> 0x50000008 = base_address demo_HIGH + address_offset demo_R1
   \<and> reg_name demo_R1 = ''R1''
   \<and> resolve_address demo_high_oracle ''0x50000008'' =
       Inr (PDict [(''peripheral'', PStr ''HIGH''), (''register'', PStr ''R0''),
                   (''description'', PStr ''first view''),
                   (''address'', PStr ''0x50000008''),
                   (''fields'',
                    PList [PDict [(''name'', PStr ''A''), (''bit_offset'', PInt 0),
                                  (''bit_width'', PInt 8), (''description'', PNone)]])])"
  by (simp add: py_int16_eval resolve_address_def demo_defs match_dict_def field_dict_def
        py_opt_str_def py_hex_eval)

text \<open>
  Claim C6. In the third example device the peripheral \<^verbatim>\<open>DBG\<close> lies below the address of
  \<^verbatim>\<open>RCC.CR\<close> and has no register list. The address reads as a hex address, and
  \<^verbatim>\<open>resolve_address\<close> raises \<^verbatim>\<open>TypeError\<close>.
\<close>

theorem resolve_address_raises_without_registers:
  "py_int16 ''0x40021000'' = Inr 0x40021000
   \<and> peripherals demo_bare_oracle = [demo_DBG, demo_RCC]
   \<and> registers demo_DBG = None \<and> base_address demo_DBG \<le> 0x40021000
   \<and> has_register_at 0x40021000 demo_RCC
   \<and> resolve_address demo_bare_oracle ''0x40021000'' = Inl TypeError"
  by (simp add: py_int16_eval resolve_address_def demo_defs has_register_at_def)

text \<open>
  What holds of the outcomes of \<^verbatim>\<open>resolve_address\<close>: a string that does not read as a
  hex address gets the payload with the key \<^verbatim>\<open>error\<close>, whatever the index; an address
  at which no peripheral holds a register and none is scanned without a register list
  gets the payload with the key \<^verbatim>\<open>status\<close>; and the method raises exactly when the scan
  reaches a peripheral without a register list before it reaches a match.
\<close>

lemma resolve_address_invalid_input:
  "py_int16 a = Inl e \<Longrightarrow>
   resolve_address self a = Inr (PDict [(''error'', PStr (''Invalid address format: '' @ a))])"
  using py_int16_error[of a e] by (simp add: resolve_address_def)

lemma resolve_address_not_found:
  assumes "py_int16 a = Inr addr"
    and "\<not> list_ex (has_register_at addr) (peripherals self)"
    and "\<not> list_ex (lacks_registers_at addr) (peripherals self)"
  shows "resolve_address self a =
           Inr (PDict [(''status'', PStr ''No matching register found for this address.'')])"
proof -
  have "\<not> list_ex (\<lambda>p. has_register_at addr p \<or> lacks_registers_at addr p) (peripherals self)"
    using assms(2,3) by (auto simp: list_ex_iff)
  then have "find (\<lambda>p. has_register_at addr p \<or> lacks_registers_at addr p) (peripherals self) = None"
    by (simp add: find_None_list_ex)
  then show ?thesis
    by (simp add: resolve_address_def assms(1) search_peripherals_find)
qed

lemma resolve_address_raises_iff:
  "(\<exists>e. resolve_address self a = Inl e) \<longleftrightarrow>
   (\<exists>addr p. py_int16 a = Inr addr
      \<and> find (\<lambda>p. has_register_at addr p \<or> lacks_registers_at addr p) (peripherals self) = Some p
      \<and> registers p = None)"
  by (auto simp: resolve_address_def search_peripherals_find
        split: sum.splits option.splits dest: py_int16_error)

section \<open>Properties of the name lookup\<close>

lemma py_split_nonempty: "py_split sep s \<noteq> []"
  by (induction s) (auto split: list.splits)

lemma py_split_no_sep: "sep \<notin> set s \<Longrightarrow> py_split sep s = [s]"
  by (induction s) auto

lemma py_split_append: "sep \<notin> set p \<Longrightarrow> py_split sep (p @ sep # s) = p # py_split sep s"
  by (induction p) (auto split: list.splits)

lemma upper_char_dot: "upper_char c = CHR ''.'' \<longleftrightarrow> c = CHR ''.''"
  by (simp add: upper_char_def)

lemma py_upper_append: "py_upper (s @ t) = py_upper s @ py_upper t"
  by (simp add: py_upper_def)

lemma py_upper_Cons: "py_upper (c # s) = upper_char c # py_upper s"
  by (simp add: py_upper_def)

lemma upper_char_dot_eq: "upper_char CHR ''.'' = CHR ''.''"
  by (simp add: upper_char_def)

lemma py_upper_dot_free: "CHR ''.'' \<notin> set (py_upper s) \<longleftrightarrow> CHR ''.'' \<notin> set s"
proof (induction s)
  case Nil
  show ?case by (simp add: py_upper_def)
next
  case (Cons c s)
  then show ?case
    using upper_char_dot[of c] by (auto simp: py_upper_Cons)
qed

text \<open>Every string with more than one dot is of the form \<open>p.r.rest\<close> of the next claim.\<close>

lemma more_than_one_dot_form:
  assumes "1 < count_list name CHR ''.''"
  shows "\<exists>p r rest. name = p @ ''.'' @ r @ ''.'' @ rest
           \<and> CHR ''.'' \<notin> set p \<and> CHR ''.'' \<notin> set r"
proof -
  have "CHR ''.'' \<in> set name"
    using assms count_list_0_iff[of name "CHR ''.''"] by auto
  then obtain p t where pt: "name = p @ CHR ''.'' # t" "CHR ''.'' \<notin> set p"
    using split_list_first[of "CHR ''.''" name] by blast
  have "count_list p CHR ''.'' = 0"
    using pt(2) by (simp add: count_list_0_iff)
  then have "0 < count_list t CHR ''.''"
    using assms pt(1) by simp
  then have "CHR ''.'' \<in> set t"
    using count_list_0_iff[of t "CHR ''.''"] by auto
  then obtain r rest where rr: "t = r @ CHR ''.'' # rest" "CHR ''.'' \<notin> set r"
    using split_list_first[of "CHR ''.''" t] by blast
  show ?thesis
    using pt rr by auto
qed

text \<open>
  Claim C10. A query with more than one dot has the form \<open>p.r.rest\<close> with no dot in
  \<open>p\<close> and none in \<open>r\<close>. \<^verbatim>\<open>get_reg_info\<close> answers it exactly as it answers \<open>p.r\<close>:
  whatever follows the second dot has no effect on the result, and so is never
  reported.
\<close>

theorem get_reg_info_extra_components:
  assumes "CHR ''.'' \<notin> set p" and "CHR ''.'' \<notin> set r"
  shows "get_reg_info self (p @ ''.'' @ r @ ''.'' @ rest) = get_reg_info self (p @ ''.'' @ r)"
proof -
  have up: "CHR ''.'' \<notin> set (py_upper p)" and ur: "CHR ''.'' \<notin> set (py_upper r)"
    using assms by (simp_all add: py_upper_dot_free)
  have long: "py_split CHR ''.'' (py_upper (p @ ''.'' @ r @ ''.'' @ rest))
                = py_upper p # py_upper r # py_split CHR ''.'' (py_upper rest)"
    using up ur
    by (simp add: py_upper_append py_upper_Cons upper_char_dot_eq py_split_append)
  have short: "py_split CHR ''.'' (py_upper (p @ ''.'' @ r)) = [py_upper p, py_upper r]"
    using up ur
    by (simp add: py_upper_append py_upper_Cons upper_char_dot_eq py_split_append py_split_no_sep)
  show ?thesis
    unfolding get_reg_info_def long short by (simp split: option.splits)
qed

theorem get_reg_info_extra_components_witness:
  "CHR ''.'' \<notin> set ''gpioa'' \<and> CHR ''.'' \<notin> set ''moder''
   \<and> get_reg_info demo_oracle ''gpioa.moder.mode0'' = get_reg_info demo_oracle ''gpioa.moder''
   \<and> get_reg_info demo_oracle ''gpioa.moder'' =
       Inr (PDict [(''peripheral'', PStr ''GPIOA''), (''register'', PStr ''MODER''),
                   (''base_address'', PStr ''0x40020000''), (''offset'', PStr ''0x0''),
                   (''absolute_address'', PStr ''0x40020000''),
                   (''description'', PStr ''port mode'')])"
proof -
  have a: "CHR ''.'' \<notin> set ''gpioa''" and b: "CHR ''.'' \<notin> set ''moder''"
    by simp_all
  have c: "get_reg_info demo_oracle ''gpioa.moder'' =
       Inr (PDict [(''peripheral'', PStr ''GPIOA''), (''register'', PStr ''MODER''),
                   (''base_address'', PStr ''0x40020000''), (''offset'', PStr ''0x0''),
                   (''absolute_address'', PStr ''0x40020000''),
                   (''description'', PStr ''port mode'')])"
    by (simp add: get_reg_info_def py_upper_def upper_char_def demo_defs reg_dict_def
          py_hex_eval py_opt_str_def)
  from get_reg_info_extra_components [OF a b, of demo_oracle "''mode0''"] a b c
  show ?thesis by simp
qed

text \<open>
  Claim C5. The query is put in upper case, the stored names are not. The example device
  has a peripheral stored as \<^verbatim>\<open>Timer0\<close>; the query by its stored name, and the same
  query in lower and in upper case, all end in the error that no peripheral
  \<^verbatim>\<open>TIMER0\<close> exists.
\<close>

theorem get_reg_info_mixed_case_name:
  "demo_Timer0 \<in> set (peripherals demo_oracle) \<and> periph_name demo_Timer0 = ''Timer0''
   \<and> get_reg_info demo_oracle ''Timer0'' = Inr (PDict [(''error'', PStr ''Peripheral 'TIMER0' not found.'')])
   \<and> get_reg_info demo_oracle ''timer0'' = Inr (PDict [(''error'', PStr ''Peripheral 'TIMER0' not found.'')])
   \<and> get_reg_info demo_oracle ''TIMER0'' = Inr (PDict [(''error'', PStr ''Peripheral 'TIMER0' not found.'')])"
  by (simp add: get_reg_info_def py_upper_def upper_char_def demo_defs)

text \<open>
  Claim C7. For the peripheral \<^verbatim>\<open>Timer0\<close> of the example device and its register
  \<^verbatim>\<open>Ctrl\<close>, the query by the peripheral's name returns no register names, and the
  query \<^verbatim>\<open>Timer0.Ctrl\<close> returns no address: both return the error payload.
\<close>

theorem get_reg_info_known_peripheral_not_described:
  "demo_Timer0 \<in> set (peripherals demo_oracle) \<and> registers demo_Timer0 = Some [demo_Ctrl]
   \<and> get_reg_info demo_oracle (periph_name demo_Timer0) =
       Inr (PDict [(''error'', PStr ''Peripheral 'TIMER0' not found.'')])
   \<and> get_reg_info demo_oracle (periph_name demo_Timer0 @ ''.'' @ reg_name demo_Ctrl) =
       Inr (PDict [(''error'', PStr ''Peripheral 'TIMER0' not found.'')])"
  by (simp add: get_reg_info_def py_upper_def upper_char_def demo_defs)

text \<open>
  What \<^verbatim>\<open>get_reg_info\<close> returns for a peripheral and a register whose stored names
  are unchanged by \<^verbatim>\<open>upper()\<close>, contain no dot and are unique: the register names in
  document order with base address and description, and for a register the absolute
  address \<^verbatim>\<open>hex(base + offset)\<close>.
\<close>

lemma find_by_name:
  "x \<in> set xs \<Longrightarrow> distinct (map f xs) \<Longrightarrow> find (\<lambda>y. f y = f x) xs = Some x"
  by (induction xs) (auto simp: image_iff)

lemma get_reg_info_peripheral:
  assumes "P \<in> set (peripherals self)"
    and "distinct (map periph_name (peripherals self))"
    and "py_upper (periph_name P) = periph_name P"
    and "CHR ''.'' \<notin> set (periph_name P)"
    and "registers P = Some regs"
  shows "get_reg_info self (periph_name P) =
           Inr (PDict [(''peripheral'', PStr (periph_name P)),
                       (''base_address'', PStr (py_hex (base_address P))),
                       (''description'', py_opt_str (periph_description P)),
                       (''registers'', PList (map (\<lambda>r. PStr (reg_name r)) regs))])"
  using assms find_by_name[of P "peripherals self" periph_name]
  by (simp add: get_reg_info_def py_split_no_sep periph_dict_def)

lemma get_reg_info_register:
  assumes "P \<in> set (peripherals self)"
    and "distinct (map periph_name (peripherals self))"
    and "py_upper (periph_name P) = periph_name P"
    and "CHR ''.'' \<notin> set (periph_name P)"
    and "registers P = Some regs"
    and "R \<in> set regs"
    and "distinct (map reg_name regs)"
    and "py_upper (reg_name R) = reg_name R"
    and "CHR ''.'' \<notin> set (reg_name R)"
    and "reg_name R \<noteq> []"
  shows "get_reg_info self (periph_name P @ ''.'' @ reg_name R) =
           Inr (PDict [(''peripheral'', PStr (periph_name P)),
                       (''register'', PStr (reg_name R)),
                       (''base_address'', PStr (py_hex (base_address P))),
                       (''offset'', PStr (py_hex (address_offset R))),
                       (''absolute_address'', PStr (py_hex (base_address P + address_offset R))),
                       (''description'', py_opt_str (reg_description R))])"
proof -
  have "py_split CHR ''.'' (py_upper (periph_name P @ ''.'' @ reg_name R))
          = [periph_name P, reg_name R]"
    using assms(3,4,8,9)
    by (simp add: py_upper_append py_upper_Cons upper_char_dot_eq py_split_append py_split_no_sep)
  then show ?thesis
    unfolding get_reg_info_def
    using assms find_by_name[of P "peripherals self" periph_name]
      find_by_name[of R regs reg_name]
    by (simp add: reg_dict_def)
qed

text \<open>
  Whenever \<^verbatim>\<open>get_reg_info\<close> returns an absolute address, that string reads as the base of
  a peripheral of the index plus the offset of one of its registers. Two spellings of a
  query that agree in upper case get the same answer.
\<close>

lemma get_reg_info_absolute_address:
  assumes "get_reg_info self name = Inr d"
    and "dict_get d ''absolute_address'' = Some (PStr a)"
  shows "\<exists>P regs R. P \<in> set (peripherals self) \<and> registers P = Some regs \<and> R \<in> set regs
           \<and> py_int16 a = Inr (base_address P + address_offset R)"
proof -
  have ne: "py_split CHR ''.'' (py_upper name) \<noteq> []"
    by (rule py_split_nonempty)
  then obtain p_name rest where sp: "py_split CHR ''.'' (py_upper name) = p_name # rest"
    by (cases "py_split CHR ''.'' (py_upper name)") auto
  show ?thesis
  proof (cases "find (\<lambda>p. periph_name p = p_name) (peripherals self)")
    case None
    with assms sp show ?thesis
      by (auto simp: get_reg_info_def dict_get_def)
  next
    case (Some P)
    then have inP: "P \<in> set (peripherals self)"
      by (auto simp: find_Some_iff)
    show ?thesis
    proof (cases "registers P")
      case None
      with assms sp Some show ?thesis
        by (simp add: get_reg_info_def)
    next
      case regs: (Some regs)
      show ?thesis
      proof (cases rest)
        case Nil
        with assms sp Some regs show ?thesis
          by (auto simp: get_reg_info_def dict_get_def periph_dict_def)
      next
        case (Cons r_name more)
        show ?thesis
        proof (cases "r_name = []")
          case True
          with assms sp Some regs Cons show ?thesis
            by (auto simp: get_reg_info_def dict_get_def periph_dict_def)
        next
          case False
          show ?thesis
          proof (cases "find (\<lambda>r. reg_name r = r_name) regs")
            case None
            with assms sp Some regs Cons False show ?thesis
              by (auto simp: get_reg_info_def dict_get_def)
          next
            case found: (Some R)
            then have inR: "R \<in> set regs"
              by (auto simp: find_Some_iff)
            have "a = py_hex (base_address P + address_offset R)"
              using assms sp Some regs Cons False found
              by (auto simp: get_reg_info_def dict_get_def reg_dict_def)
            then show ?thesis
              using inP regs inR py_int16_py_hex by blast
          qed
        qed
      qed
    qed
  qed
qed

lemma get_reg_info_query_case:
  "py_upper name = py_upper name' \<Longrightarrow> get_reg_info self name = get_reg_info self name'"
  by (simp add: get_reg_info_def)

section \<open>Properties of the method on the store\<close>

lemma append_fields_limit: "limit (snd (append_fields fa fs h)) = limit h"
  by (induction fs arbitrary: h) (auto simp: list_append_def split: item.splits)

lemma append_fields_frame: "x \<noteq> fa \<Longrightarrow> cells (snd (append_fields fa fs h)) x = cells h x"
  by (induction fs arbitrary: h) (auto simp: list_append_def split: item.splits)

lemma append_fields_outcome:
  "fst (append_fields fa fs h)
     = (if list_all (\<lambda>x. the_field x \<noteq> None) fs then None else Some AttributeError)"
  by (induction fs arbitrary: h) (auto simp: the_field_def split: item.splits)

lemma append_fields_content:
  "cells (snd (append_fields fa fs h)) fa
     = cells h fa @ map (\<lambda>x. IValue (field_dict (the (the_field x))))
                        (takeWhile (\<lambda>x. the_field x \<noteq> None) fs)"
  by (induction fs arbitrary: h) (auto simp: list_append_def the_field_def split: item.splits)

lemma search_registers_h_none:
  "fst (search_registers_h p_name addr offset regs h) = Inr None \<Longrightarrow>
   snd (search_registers_h p_name addr offset regs h) = h"
  by (induction regs) (auto simp: new_list_def Let_def split: item.splits prod.splits option.splits if_splits)

lemma search_registers_h_frame:
  "limit h \<le> limit (snd (search_registers_h p_name addr offset regs h))
   \<and> (\<forall>x < limit h. cells (snd (search_registers_h p_name addr offset regs h)) x = cells h x)"
proof (induction regs)
  case Nil
  show ?case by simp
next
  case (Cons reg regs)
  show ?case
  proof (cases reg)
    case (IRegister r_name r_offset r_description fields_at)
    show ?thesis
    proof (cases "r_offset = offset")
      case False
      with IRegister Cons.IH show ?thesis by simp
    next
      case True
      let ?h1 = "snd (new_list h)"
      let ?r = "append_fields (limit h) (cells ?h1 fields_at) ?h1"
      have l: "limit (snd ?r) = Suc (limit h)"
        by (simp add: append_fields_limit new_list_def)
      have f: "\<forall>x < limit h. cells (snd ?r) x = cells h x"
        by (simp add: append_fields_frame new_list_def)
      have "snd (search_registers_h p_name addr offset (reg # regs) h) = snd ?r"
        using IRegister True by (simp add: new_list_def Let_def split: prod.splits option.splits)
      with l f show ?thesis by simp
    qed
  qed simp_all
qed

lemma search_registers_h_agree:
  assumes "\<forall>x < n. cells h x = cells h' x" and "n \<le> limit h" and "n \<le> limit h'"
    and "list_all (register_allocated n) regs"
  shows "fst (search_registers_h p_name addr offset regs h)
           = fst (search_registers_h p_name addr offset regs h')"
  using assms(4)
proof (induction regs)
  case Nil
  show ?case by simp
next
  case (Cons reg regs)
  show ?case
  proof (cases reg)
    case (IRegister r_name r_offset r_description fields_at)
    with Cons.prems have fa: "fields_at < n"
      by (simp add: register_allocated_def)
    show ?thesis
    proof (cases "r_offset = offset")
      case False
      with IRegister Cons show ?thesis by simp
    next
      case True
      have src: "cells (snd (new_list h)) fields_at = cells h fields_at"
        "cells (snd (new_list h')) fields_at = cells h' fields_at"
        using fa assms(2,3) by (simp_all add: new_list_def)
      have same: "cells h fields_at = cells h' fields_at"
        using fa assms(1) by simp
      let ?fs = "cells h fields_at"
      let ?r = "append_fields (limit h) ?fs (snd (new_list h))"
      let ?r' = "append_fields (limit h') ?fs (snd (new_list h'))"
      have o: "fst ?r = fst ?r'"
        by (simp add: append_fields_outcome)
      have c: "cells (snd ?r) (limit h) = cells (snd ?r') (limit h')"
        by (simp add: append_fields_content new_list_def)
      have L: "search_registers_h p_name addr offset (reg # regs) h =
                 (case ?r of
                    (Some e, h2) \<Rightarrow> (Inl e, h2)
                  | (None, h2) \<Rightarrow>
                     (Inr (Some (PDict [(''peripheral'', PStr p_name),
                                        (''register'', PStr r_name),
                                        (''description'', py_opt_str r_description),
                                        (''address'', PStr (py_hex addr)),
                                        (''fields'', PList (map item_value (cells h2 (limit h))))])),
                      h2))"
        using IRegister True src(1) by (simp add: new_list_def Let_def)
      have R: "search_registers_h p_name addr offset (reg # regs) h' =
                 (case ?r' of
                    (Some e, h2) \<Rightarrow> (Inl e, h2)
                  | (None, h2) \<Rightarrow>
                     (Inr (Some (PDict [(''peripheral'', PStr p_name),
                                        (''register'', PStr r_name),
                                        (''description'', py_opt_str r_description),
                                        (''address'', PStr (py_hex addr)),
                                        (''fields'', PList (map item_value (cells h2 (limit h'))))])),
                      h2))"
        using IRegister True src(2) same by (simp add: new_list_def Let_def)
      show ?thesis
        unfolding L R using o c
        by (cases ?r; cases ?r') (auto split: option.splits)
    qed
  qed simp_all
qed

lemma search_peripherals_h_frame:
  "limit h \<le> limit (snd (search_peripherals_h addr ps h))
   \<and> (\<forall>x < limit h. cells (snd (search_peripherals_h addr ps h)) x = cells h x)"
proof (induction ps)
  case Nil
  show ?case by simp
next
  case (Cons p ps)
  show ?case
  proof (cases p)
    case (IPeripheral p_name base p_description registers_at)
    show ?thesis
    proof (cases "addr < base")
      case True
      with IPeripheral Cons.IH show ?thesis by simp
    next
      case False
      show ?thesis
      proof (cases registers_at)
        case None
        with IPeripheral False show ?thesis by simp
      next
        case (Some ra)
        let ?r = "search_registers_h p_name addr (addr - base) (cells h ra) h"
        show ?thesis
        proof (cases "fst ?r = Inr None")
          case True
          then have "snd ?r = h" by (rule search_registers_h_none)
          with True have "?r = (Inr None, h)" by (cases ?r) simp
          with IPeripheral False Some Cons.IH show ?thesis by simp
        next
          case stop: False
          then have "search_peripherals_h addr (p # ps) h = ?r"
            using IPeripheral False Some
            by (cases ?r) (auto split: sum.splits option.splits)
          then show ?thesis
            using search_registers_h_frame[of h p_name addr "addr - base" "cells h ra"] by simp
        qed
      qed
    qed
  qed simp_all
qed

lemma search_peripherals_h_agree:
  assumes "\<forall>x < n. cells h x = cells h' x" and "n \<le> limit h" and "n \<le> limit h'"
    and "list_all (peripheral_allocated h n) ps"
  shows "fst (search_peripherals_h addr ps h) = fst (search_peripherals_h addr ps h')"
  using assms(4)
proof (induction ps)
  case Nil
  show ?case by simp
next
  case (Cons p ps)
  show ?case
  proof (cases p)
    case (IPeripheral p_name base p_description registers_at)
    show ?thesis
    proof (cases "addr < base")
      case True
      with IPeripheral Cons show ?thesis by simp
    next
      case False
      show ?thesis
      proof (cases registers_at)
        case None
        with IPeripheral False show ?thesis by simp
      next
        case (Some ra)
        with IPeripheral Cons.prems have ra: "ra < n"
          and regs: "list_all (register_allocated n) (cells h ra)"
          by (simp_all add: peripheral_allocated_def)
        have same: "cells h' ra = cells h ra"
          using ra assms(1) by simp
        let ?r = "search_registers_h p_name addr (addr - base) (cells h ra) h"
        let ?r' = "search_registers_h p_name addr (addr - base) (cells h ra) h'"
        have eq: "fst ?r = fst ?r'"
          using search_registers_h_agree[OF assms(1-3) regs] .
        show ?thesis
        proof (cases "fst ?r = Inr None")
          case True
          then have "?r = (Inr None, h)"
            using search_registers_h_none[of p_name addr "addr - base" "cells h ra" h]
            by (cases ?r) simp
          moreover have "?r' = (Inr None, h')"
            using True eq search_registers_h_none[of p_name addr "addr - base" "cells h ra" h']
            by (cases ?r') simp
          ultimately show ?thesis
            using IPeripheral False Some same Cons by simp
        next
          case stop: False
          have "search_peripherals_h addr (p # ps) h = ?r"
            using stop IPeripheral False Some
            by (cases ?r) (auto split: sum.splits option.splits)
          moreover have "search_peripherals_h addr (p # ps) h' = ?r'"
            using stop eq IPeripheral False Some same
            by (cases ?r') (auto split: sum.splits option.splits)
          ultimately show ?thesis using eq by simp
        qed
      qed
    qed
  qed simp_all
qed

lemma resolve_address_h_frame:
  "limit h \<le> limit (snd (resolve_address_h pa a h))
   \<and> (\<forall>x < limit h. cells (snd (resolve_address_h pa a h)) x = cells h x)"
proof (cases "py_int16 a")
  case (Inl e)
  then show ?thesis by (simp add: resolve_address_h_def)
next
  case (Inr addr)
  have "snd (resolve_address_h pa a h) = snd (search_peripherals_h addr (cells h pa) h)"
    using Inr
    by (cases "search_peripherals_h addr (cells h pa) h")
       (auto simp: resolve_address_h_def split: sum.splits option.splits)
  then show ?thesis
    using search_peripherals_h_frame[of h addr "cells h pa"] by simp
qed

lemma resolve_address_h_agree:
  assumes "\<forall>x < n. cells h x = cells h' x" and "n \<le> limit h" and "n \<le> limit h'"
    and "index_allocated h n pa"
  shows "fst (resolve_address_h pa a h) = fst (resolve_address_h pa a h')"
proof (cases "py_int16 a")
  case (Inl e)
  then show ?thesis by (simp add: resolve_address_h_def)
next
  case (Inr addr)
  have pa: "cells h' pa = cells h pa"
    using assms(1,4) by (simp add: index_allocated_def)
  have "fst (search_peripherals_h addr (cells h pa) h)
          = fst (search_peripherals_h addr (cells h pa) h')"
    using search_peripherals_h_agree[OF assms(1-3)] assms(4) by (simp add: index_allocated_def)
  then show ?thesis
    using Inr pa
    by (cases "search_peripherals_h addr (cells h pa) h";
        cases "search_peripherals_h addr (cells h pa) h'")
       (auto simp: resolve_address_h_def split: sum.splits option.splits)
qed

text \<open>
  The method on the store computes what the method on the index computes, for the index
  that the store holds.
\<close>

lemma those_fields:
  "those (map the_field fs) = Some flds \<Longrightarrow>
   list_all (\<lambda>x. the_field x \<noteq> None) fs \<and> map (\<lambda>x. the (the_field x)) fs = flds"
  by (induction fs arbitrary: flds) (auto split: option.splits)

lemma takeWhile_all: "list_all P xs \<Longrightarrow> takeWhile P xs = xs"
  by (induction xs) auto

lemma search_registers_h_refines:
  assumes "those (map (the_register h) regs) = Some rs"
    and "list_all (register_allocated (limit h)) regs"
  shows "fst (search_registers_h (periph_name P) addr offset regs h)
           = Inr (search_registers P addr offset rs)"
  using assms
proof (induction regs arbitrary: rs)
  case Nil
  then show ?case by simp
next
  case (Cons reg regs)
  from Cons.prems(1) obtain r rs' where r: "the_register h reg = Some r"
    and rs': "those (map (the_register h) regs) = Some rs'" and rs: "rs = r # rs'"
    by (auto split: option.splits)
  from r obtain r_name r_offset r_description fields_at flds where
    reg: "reg = IRegister r_name r_offset r_description fields_at"
    and flds: "those (map the_field (cells h fields_at)) = Some flds"
    and rdef: "r = \<lparr>reg_name = r_name, address_offset = r_offset,
                     reg_description = r_description, reg_fields = flds\<rparr>"
    by (auto simp: the_register_def split: item.splits)
  from Cons.prems(2) reg have fa: "fields_at < limit h"
    by (simp add: register_allocated_def)
  show ?case
  proof (cases "r_offset = offset")
    case False
    with reg rdef rs rs' Cons.IH[OF rs'] Cons.prems(2) show ?thesis by simp
  next
    case True
    let ?fs = "cells h fields_at"
    let ?res = "append_fields (limit h) ?fs (snd (new_list h))"
    have src: "cells (snd (new_list h)) fields_at = ?fs"
      using fa by (simp add: new_list_def)
    have typed: "list_all (\<lambda>x. the_field x \<noteq> None) ?fs"
      and vals: "map (\<lambda>x. the (the_field x)) ?fs = flds"
      using those_fields[OF flds] by simp_all
    have o: "fst ?res = None"
      using typed by (simp add: append_fields_outcome)
    have c: "cells (snd ?res) (limit h) = map (\<lambda>x. IValue (field_dict (the (the_field x)))) ?fs"
      using typed by (simp add: append_fields_content new_list_def takeWhile_all)
    have "map item_value (cells (snd ?res) (limit h)) = map field_dict flds"
      unfolding c using vals by (auto simp: item_value_def)
    then have "fst (search_registers_h (periph_name P) addr offset (reg # regs) h)
                 = Inr (Some (match_dict P r addr))"
      using reg True src o rdef
      by (cases ?res) (simp add: new_list_def Let_def match_dict_def)
    then show ?thesis
      using True rdef rs by simp
  qed
qed

lemma search_peripherals_h_refines:
  assumes "those (map (the_peripheral h) ps) = Some qs"
    and "list_all (peripheral_allocated h (limit h)) ps"
  shows "fst (search_peripherals_h addr ps h) = search_peripherals addr qs"
  using assms
proof (induction ps arbitrary: qs)
  case Nil
  then show ?case by simp
next
  case (Cons p ps)
  from Cons.prems(1) obtain q qs' where q: "the_peripheral h p = Some q"
    and qs': "those (map (the_peripheral h) ps) = Some qs'" and qs: "qs = q # qs'"
    by (auto split: option.splits)
  from q obtain p_name base p_description registers_at where
    p: "p = IPeripheral p_name base p_description registers_at"
    by (auto simp: the_peripheral_def split: item.splits)
  have IH: "fst (search_peripherals_h addr ps h) = search_peripherals addr qs'"
    using Cons.IH[OF qs'] Cons.prems(2) by simp
  have qn: "periph_name q = p_name" "base_address q = base"
    using q p by (auto simp: the_peripheral_def split: option.splits)
  show ?case
  proof (cases "addr < base")
    case True
    with p qn qs IH show ?thesis by simp
  next
    case False
    show ?thesis
    proof (cases registers_at)
      case None
      then have "registers q = None"
        using q p by (auto simp: the_peripheral_def)
      with None p qn qs False show ?thesis by simp
    next
      case (Some ra)
      then obtain rs where rs: "those (map (the_register h) (cells h ra)) = Some rs"
        and qr: "registers q = Some rs"
        using q p by (auto simp: the_peripheral_def)
      have al: "list_all (register_allocated (limit h)) (cells h ra)"
        using Cons.prems(2) p Some by (simp add: peripheral_allocated_def)
      let ?r = "search_registers_h p_name addr (addr - base) (cells h ra) h"
      have inner: "fst ?r = Inr (search_registers q addr (addr - base) rs)"
        using search_registers_h_refines[OF rs al, of q addr "addr - base"] qn by simp
      show ?thesis
      proof (cases "search_registers q addr (addr - base) rs")
        case None
        with inner have "?r = (Inr None, h)"
          using search_registers_h_none[of p_name addr "addr - base" "cells h ra" h]
          by (cases ?r) simp
        with None p Some False qn qr qs IH show ?thesis by simp
      next
        case (Some d)
        with inner have "fst ?r = Inr (Some d)" by simp
        then have "fst (search_peripherals_h addr (p # ps) h) = Inr (Some d)"
          using p \<open>registers_at = Some ra\<close> False by (cases ?r) simp
        with Some False qn qr qs show ?thesis by simp
      qed
    qed
  qed
qed

lemma resolve_address_h_refines:
  assumes "the_oracle h pa = Some oracle" and "index_allocated h (limit h) pa"
  shows "fst (resolve_address_h pa a h) = resolve_address oracle a"
proof -
  from assms(1) obtain qs where qs: "those (map (the_peripheral h) (cells h pa)) = Some qs"
    and o: "oracle = \<lparr>peripherals = qs\<rparr>"
    by (auto simp: the_oracle_def)
  have al: "list_all (peripheral_allocated h (limit h)) (cells h pa)"
    using assms(2) by (simp add: index_allocated_def)
  show ?thesis
  proof (cases "py_int16 a")
    case (Inl e)
    then show ?thesis
      by (simp add: resolve_address_h_def resolve_address_def)
  next
    case (Inr addr)
    obtain r h1 where run: "search_peripherals_h addr (cells h pa) h = (r, h1)"
      by (cases "search_peripherals_h addr (cells h pa) h")
    then have "r = search_peripherals addr qs"
      using search_peripherals_h_refines[OF qs al, of addr] by simp
    with Inr run o show ?thesis
      by (simp add: resolve_address_h_def resolve_address_def split: sum.splits option.splits)
  qed
qed

text \<open>
  Claim C9. Let the lists of the index be allocated in the store. Then two calls of
  \<^verbatim>\<open>resolve_address\<close> with the same string, the second on the store the first has left,
  return the same value; every list that existed before the first call, the lists of
  the index among them, holds after each call what it held before; each call only
  adds lists. The value is the one the method on the index computes.
\<close>

theorem resolve_address_idempotent:
  assumes "index_allocated h (limit h) pa"
  shows "(case resolve_address_h pa a h of
            (r1, h1) \<Rightarrow>
              (case resolve_address_h pa a h1 of
                 (r2, h2) \<Rightarrow>
                   r1 = r2
                   \<and> (\<forall>x < limit h. cells h1 x = cells h x \<and> cells h2 x = cells h x)
                   \<and> limit h \<le> limit h1 \<and> limit h1 \<le> limit h2
                   \<and> (\<forall>oracle. the_oracle h pa = Some oracle \<longrightarrow>
                          r1 = resolve_address oracle a)))"
proof -
  let ?h1 = "snd (resolve_address_h pa a h)"
  let ?h2 = "snd (resolve_address_h pa a ?h1)"
  have f1: "limit h \<le> limit ?h1" "\<forall>x < limit h. cells ?h1 x = cells h x"
    using resolve_address_h_frame[of h pa a] by simp_all
  have f2: "limit ?h1 \<le> limit ?h2" "\<forall>x < limit ?h1. cells ?h2 x = cells ?h1 x"
    using resolve_address_h_frame[of ?h1 pa a] by simp_all
  have agree: "\<forall>x < limit h. cells h x = cells ?h1 x"
    using f1(2) by simp
  have eq: "fst (resolve_address_h pa a h) = fst (resolve_address_h pa a ?h1)"
    using resolve_address_h_agree[OF agree _ f1(1) assms] by simp
  have both: "\<forall>x < limit h. cells ?h2 x = cells h x"
    using f1 f2 by auto
  have ref: "\<forall>oracle. the_oracle h pa = Some oracle \<longrightarrow>
               fst (resolve_address_h pa a h) = resolve_address oracle a"
    using resolve_address_h_refines[OF _ assms] by blast
  show ?thesis
    using eq f1 f2 both ref by (simp add: case_prod_beta)
qed

lemmas demo_heap_eval = demo_heap_def resolve_address_h_def new_list_def list_append_def
  item_value_def field_dict_def py_opt_str_def

theorem resolve_address_idempotent_witness:
  "index_allocated demo_heap (limit demo_heap) 0
   \<and> fst (resolve_address_h 0 ''0x40021000'' demo_heap) =
       Inr (PDict [(''peripheral'', PStr ''RCC''), (''register'', PStr ''CR''),
                   (''description'', PStr ''clock control''),
                   (''address'', PStr ''0x40021000''),
                   (''fields'',
                    PList [PDict [(''name'', PStr ''HSION''), (''bit_offset'', PInt 0),
                                  (''bit_width'', PInt 1),
                                  (''description'', PStr ''internal oscillator on'')],
                           PDict [(''name'', PStr ''HSITRIM''), (''bit_offset'', PInt 3),
                                  (''bit_width'', PInt 5), (''description'', PNone)]])])
   \<and> fst (resolve_address_h 0 ''0x40021000'' (snd (resolve_address_h 0 ''0x40021000'' demo_heap)))
       = fst (resolve_address_h 0 ''0x40021000'' demo_heap)
   \<and> limit (snd (resolve_address_h 0 ''0x40021000'' demo_heap)) = 4
   \<and> cells (snd (resolve_address_h 0 ''0x40021000'' demo_heap)) 2 = cells demo_heap 2"
proof -
  have a: "index_allocated demo_heap (limit demo_heap) 0"
    by (simp add: index_allocated_def peripheral_allocated_def register_allocated_def
          demo_heap_def)
  have p: "py_int16 ''0x40021000'' = Inr 0x40021000"
    by (simp add: py_int16_eval)
  have r: "fst (resolve_address_h 0 ''0x40021000'' demo_heap) =
       Inr (PDict [(''peripheral'', PStr ''RCC''), (''register'', PStr ''CR''),
                   (''description'', PStr ''clock control''),
                   (''address'', PStr ''0x40021000''),
                   (''fields'',
                    PList [PDict [(''name'', PStr ''HSION''), (''bit_offset'', PInt 0),
                                  (''bit_width'', PInt 1),
                                  (''description'', PStr ''internal oscillator on'')],
                           PDict [(''name'', PStr ''HSITRIM''), (''bit_offset'', PInt 3),
                                  (''bit_width'', PInt 5), (''description'', PNone)]])])"
    by (simp add: p demo_heap_eval py_hex_eval)
  have l: "limit (snd (resolve_address_h 0 ''0x40021000'' demo_heap)) = 4"
    by (simp add: p demo_heap_eval)
  have two: "(2::nat) < limit demo_heap"
    by (simp add: demo_heap_def)
  from resolve_address_idempotent [OF a, of "''0x40021000''"] two
  have "fst (resolve_address_h 0 ''0x40021000'' (snd (resolve_address_h 0 ''0x40021000'' demo_heap)))
          = fst (resolve_address_h 0 ''0x40021000'' demo_heap)
        \<and> cells (snd (resolve_address_h 0 ''0x40021000'' demo_heap)) 2 = cells demo_heap 2"
    by (auto simp: case_prod_beta)
  with a r l show ?thesis by simp
qed

section \<open>Properties of the debug session\<close>

lemmas session_eval = GDBInterface_init_def restart_environment_def stop_all_def kill_emulator_def
  exit_debugger_def launch_emulator_def launch_debugger_def bootstrap_symbols_def
  bootstrap_connect_def gdbmi_write_def start_def

subsection \<open>Life cycle\<close>

lemma distinct_in_option: "distinct xs \<Longrightarrow> set xs \<subseteq> set_option x \<Longrightarrow> length xs \<le> 1"
proof (cases x)
  case None
  assume "set xs \<subseteq> set_option x"
  with None show ?thesis by simp
next
  case (Some p)
  assume d: "distinct xs" and "set xs \<subseteq> set_option x"
  with Some have "set xs \<subseteq> {p}" by simp
  then have "card (set xs) \<le> card {p}"
    by (intro card_mono) simp_all
  with d show ?thesis by (simp add: distinct_card)
qed

lemma tracked_init: "tracked (GDBInterface_init path)"
  by (simp add: tracked_def GDBInterface_init_def running_emulators_def)

lemma tracked_at_most_one_running: "tracked s \<Longrightarrow> at_most_one_running s"
  unfolding tracked_def at_most_one_running_def
  using distinct_in_option[of "running_emulators s" "qemu_proc s"]
    distinct_in_option[of "debuggers s" "map_option gdb_pid (gdbmi s)"]
  by (simp add: running_emulators_def)

lemma tracked_kill_emulator: "tracked s \<Longrightarrow> tracked (kill_emulator s)"
  by (cases "qemu_proc s")
     (auto simp: tracked_def kill_emulator_def running_emulators_def list_all_iff)

lemma tracked_exit_debugger: "tracked s \<Longrightarrow> tracked (exit_debugger s)"
  by (cases "gdbmi s")
     (auto simp: tracked_def exit_debugger_def running_emulators_def list_all_iff
        distinct_removeAll)

lemma tracked_stop_all: "tracked s \<Longrightarrow> tracked (stop_all s)"
  by (simp add: stop_all_def tracked_kill_emulator tracked_exit_debugger)

lemma stop_all_handles: "qemu_proc (stop_all s) = None \<and> gdbmi (stop_all s) = None"
  by (simp add: stop_all_def kill_emulator_def exit_debugger_def split: option.splits)

lemma stop_all_next_pid: "next_pid (stop_all s) = next_pid s"
  by (simp add: stop_all_def kill_emulator_def exit_debugger_def split: option.splits)

lemma stop_all_emulators: "emulators (stop_all s) = emulators s"
  by (simp add: stop_all_def kill_emulator_def exit_debugger_def split: option.splits)

lemma tracked_launch_emulator:
  assumes "tracked s" and "qemu_proc s = None"
  shows "tracked (launch_emulator s)"
proof -
  have lt: "\<forall>p \<in> set (emulators s) \<union> set (signalled s) \<union> set (debuggers s). p < next_pid s"
    using assms(1) unfolding tracked_def by (auto simp: list_all_iff)
  then have fresh: "next_pid s \<notin> set (emulators s)"
    by fastforce
  have none: "running_emulators s = []"
    using assms unfolding tracked_def by simp
  then have r: "running_emulators (launch_emulator s)
                  = filter (\<lambda>p. p \<notin> set (signalled s)) [next_pid s]"
    by (simp add: launch_emulator_def running_emulators_def)
  have d: "distinct (emulators s)" "distinct (debuggers s)"
    "set (debuggers s) \<subseteq> set_option (map_option gdb_pid (gdbmi s))"
    using assms(1) unfolding tracked_def by simp_all
  have lt': "\<forall>p \<in> set (emulators s) \<union> set (signalled s) \<union> set (debuggers s).
               p < Suc (next_pid s)"
    using lt by (auto simp: less_Suc_eq)
  show ?thesis
    unfolding tracked_def
    using r d fresh lt'
    by (auto simp: launch_emulator_def list_all_iff)
qed

lemma tracked_launch_debugger:
  assumes "tracked s" and "gdbmi s = None"
  shows "tracked (launch_debugger s)"
proof -
  have lt: "\<forall>p \<in> set (emulators s) \<union> set (signalled s) \<union> set (debuggers s)
               \<union> set_option (qemu_proc s). p < next_pid s"
    using assms(1) unfolding tracked_def by (auto simp: list_all_iff split: option.splits)
  have none: "debuggers s = []"
    using assms unfolding tracked_def by simp
  have r: "running_emulators (launch_debugger s) = running_emulators s"
    by (simp add: launch_debugger_def running_emulators_def)
  have d: "distinct (emulators s)" "set (running_emulators s) \<subseteq> set_option (qemu_proc s)"
    using assms(1) unfolding tracked_def by simp_all
  have lt': "\<forall>p \<in> set (emulators s) \<union> set (signalled s) \<union> set_option (qemu_proc s).
               p < Suc (next_pid s)"
    using lt by (auto simp: less_Suc_eq)
  show ?thesis
    unfolding tracked_def r
    using none d lt'
    by (auto simp: launch_debugger_def list_all_iff split: option.splits)
qed

lemma tracked_gdbmi_write: "tracked s \<Longrightarrow> tracked (snd (gdbmi_write dbg s cmd))"
  by (cases "gdbmi s")
     (auto simp: tracked_def gdbmi_write_def running_emulators_def)

lemma launch_emulator_gdbmi: "gdbmi (launch_emulator s) = gdbmi s"
  by (simp add: launch_emulator_def)

lemma tracked_restart_states:
  assumes "tracked s"
  shows "list_all tracked (restart_environment_states s)"
proof -
  let ?s0 = "kill_emulator s"
  let ?s1 = "exit_debugger ?s0"
  let ?s2 = "launch_emulator ?s1"
  let ?s3 = "launch_debugger ?s2"
  let ?s4 = "bootstrap_symbols ?s3"
  let ?s5 = "bootstrap_connect ?s4"
  have t0: "tracked ?s0" using assms by (rule tracked_kill_emulator)
  have t1: "tracked ?s1" using t0 by (rule tracked_exit_debugger)
  have h1: "qemu_proc ?s1 = None" "gdbmi ?s1 = None"
    using stop_all_handles[of s] by (simp_all add: stop_all_def)
  have t2: "tracked ?s2" using t1 h1(1) by (rule tracked_launch_emulator)
  have "gdbmi ?s2 = None" using h1(2) by (simp add: launch_emulator_gdbmi)
  with t2 have t3: "tracked ?s3" by (rule tracked_launch_debugger)
  have t4: "tracked ?s4" using t3 by (simp add: bootstrap_symbols_def tracked_gdbmi_write)
  have t5: "tracked ?s5" using t4 by (simp add: bootstrap_connect_def tracked_gdbmi_write)
  show ?thesis
    using t0 t1 t2 t3 t4 t5 by (simp add: restart_environment_states_def Let_def)
qed

lemma restart_environment_last:
  "snd (restart_environment s) = last (restart_environment_states s)"
  by (simp add: restart_environment_def restart_environment_states_def stop_all_def Let_def)

lemma tracked_restart: "tracked s \<Longrightarrow> tracked (snd (restart_environment s))"
  using tracked_restart_states[of s]
  by (simp add: restart_environment_last restart_environment_states_def Let_def)

lemma tracked_op_states: "tracked s \<Longrightarrow> list_all tracked (op_states x s)"
  by (cases x) (simp_all add: tracked_restart_states tracked_kill_emulator tracked_stop_all)

lemma op_states_last: "last (op_states x s) = apply_op x s"
  by (cases x) (simp_all add: restart_environment_last start_def)

lemma tracked_apply_op: "tracked s \<Longrightarrow> tracked (apply_op x s)"
  by (cases x) (simp_all add: tracked_restart tracked_stop_all start_def)

lemma tracked_step: "tracked s \<Longrightarrow> tracked (step e s)"
proof (cases e)
  case (Call x)
  assume "tracked s"
  with Call show ?thesis by (simp add: tracked_apply_op)
next
  case (EmulatorExits p)
  assume "tracked s"
  with EmulatorExits show ?thesis
    by (auto simp: tracked_def running_emulators_def list_all_iff distinct_removeAll)
next
  case (DebuggerExits p)
  assume "tracked s"
  with DebuggerExits show ?thesis
    by (auto simp: tracked_def running_emulators_def list_all_iff distinct_removeAll)
qed

lemma tracked_event_states: "tracked s \<Longrightarrow> list_all tracked (event_states e s)"
  using tracked_step[of s e] by (cases e) (simp_all add: tracked_op_states)

lemma event_states_last: "last (event_states e s) = step e s"
  by (cases e) (simp_all add: op_states_last)

lemma tracked_run: "tracked s \<Longrightarrow> tracked (run es s)"
  by (induction es arbitrary: s) (simp_all add: tracked_step)

lemma stop_all_quiet:
  assumes "tracked s"
  shows "running_emulators (stop_all s) = [] \<and> debuggers (stop_all s) = []"
proof -
  have "tracked (stop_all s)" using assms by (rule tracked_stop_all)
  then have "set (running_emulators (stop_all s)) \<subseteq> {}" "set (debuggers (stop_all s)) \<subseteq> {}"
    using stop_all_handles[of s] unfolding tracked_def by simp_all
  then show ?thesis by simp
qed

lemma restart_fresh:
  assumes "tracked s"
  shows "emulators (snd (restart_environment s)) = emulators s @ [next_pid s]
       \<and> running_emulators (snd (restart_environment s)) = [next_pid s]
       \<and> debuggers (snd (restart_environment s)) = [Suc (next_pid s)]
       \<and> qemu_proc (snd (restart_environment s)) = Some (next_pid s)
       \<and> map_option gdb_pid (gdbmi (snd (restart_environment s))) = Some (Suc (next_pid s))"
proof -
  let ?t = "stop_all s"
  have q: "running_emulators ?t = []" "debuggers ?t = []"
    using stop_all_quiet[OF assms] by simp_all
  have t: "tracked ?t" using assms by (rule tracked_stop_all)
  then have "next_pid ?t \<notin> set (signalled ?t)"
    unfolding tracked_def by (auto simp: list_all_iff)
  then have fresh: "next_pid s \<notin> set (signalled ?t)"
    by (simp add: stop_all_next_pid)
  have run: "running_emulators (snd (restart_environment s))
               = running_emulators ?t @ [next_pid s]"
    using fresh stop_all_next_pid[of s]
    by (simp add: restart_environment_def Let_def launch_emulator_def launch_debugger_def
          bootstrap_symbols_def bootstrap_connect_def gdbmi_write_def running_emulators_def)
  show ?thesis
    using q run stop_all_handles[of s] stop_all_next_pid[of s] stop_all_emulators[of s]
    by (simp add: restart_environment_def Let_def launch_emulator_def launch_debugger_def
          bootstrap_symbols_def bootstrap_connect_def gdbmi_write_def)
qed

text \<open>
  What the life cycle does keep. After any sequence of start, restart and stop
  operations on a fresh interface, with emulators and debuggers exiting whenever the
  host lets them, and in every state passed through while one more event happens, at
  most one emulator that has not been sent \<^verbatim>\<open>SIGTERM\<close> and at most one debugger are
  live. A restart first sends \<^verbatim>\<open>SIGTERM\<close> to the emulator held and ends the debugger
  held, so that every emulator still live has been signalled and no debugger is live;
  it then launches one emulator and one debugger, both new and both held by the
  interface. It does not wait for the signalled emulator: the emulators live before the
  restart are still listed after it.
\<close>

theorem lifecycle_at_most_one_running:
  "at_most_one_running (run es (GDBInterface_init path))
   \<and> list_all at_most_one_running (event_states e (run es (GDBInterface_init path)))
   \<and> last (event_states e (run es (GDBInterface_init path)))
       = step e (run es (GDBInterface_init path))
   \<and> (let s = run es (GDBInterface_init path);
           s' = snd (restart_environment s)
       in running_emulators (stop_all s) = [] \<and> debuggers (stop_all s) = []
          \<and> emulators (stop_all s) = emulators s
          \<and> length (running_emulators s') = 1 \<and> length (debuggers s') = 1
          \<and> emulators s' = emulators s @ running_emulators s'
          \<and> set (running_emulators s') \<inter> set (emulators s) = {}
          \<and> set (debuggers s') \<inter> set (debuggers s) = {}
          \<and> map_option (\<lambda>p. [p]) (qemu_proc s') = Some (running_emulators s')
          \<and> map_option (\<lambda>g. [gdb_pid g]) (gdbmi s') = Some (debuggers s'))"
proof -
  let ?s = "run es (GDBInterface_init path)"
  have t: "tracked ?s"
    by (simp add: tracked_run tracked_init)
  have a: "at_most_one_running ?s"
    using t by (rule tracked_at_most_one_running)
  have b: "list_all at_most_one_running (event_states e ?s)"
    using tracked_event_states[OF t, of e] by (auto simp: list_all_iff tracked_at_most_one_running)
  have c: "last (event_states e ?s) = step e ?s"
    by (rule event_states_last)
  have d: "running_emulators (stop_all ?s) = [] \<and> debuggers (stop_all ?s) = []"
    using t by (rule stop_all_quiet)
  have lt: "\<forall>p \<in> set (emulators ?s) \<union> set (debuggers ?s). p < next_pid ?s"
    using t unfolding tracked_def by (auto simp: list_all_iff)
  have n0: "next_pid ?s \<notin> set (emulators ?s)"
    using lt by fastforce
  have n1: "Suc (next_pid ?s) \<notin> set (debuggers ?s)"
  proof
    assume "Suc (next_pid ?s) \<in> set (debuggers ?s)"
    with lt have "Suc (next_pid ?s) < next_pid ?s" by blast
    then show False by simp
  qed
  have f: "map_option (\<lambda>g. [gdb_pid g]) (gdbmi (snd (restart_environment ?s)))
             = Some (debuggers (snd (restart_environment ?s)))"
    using restart_fresh[OF t] by (cases "gdbmi (snd (restart_environment ?s))") auto
  show ?thesis
    using a b c d n0 n1 f restart_fresh[OF t] stop_all_emulators[of ?s] by (simp add: Let_def)
qed

theorem lifecycle_at_most_one_running_witness:
  "at_most_one_running
     (run [Call Start, Call Restart, EmulatorExits 0, Call Stop, Call Start]
        (GDBInterface_init ''firmware/app.elf''))
   \<and> emulators (run [Call Start, Call Restart] (GDBInterface_init ''firmware/app.elf'')) = [0, 2]
   \<and> running_emulators (run [Call Start, Call Restart] (GDBInterface_init ''firmware/app.elf'')) = [2]
   \<and> debuggers (run [Call Start, Call Restart] (GDBInterface_init ''firmware/app.elf'')) = [3]
   \<and> list_all at_most_one_running
        (event_states (Call Restart) (run [Call Start] (GDBInterface_init ''firmware/app.elf'')))"
proof -
  have a: "emulators (run [Call Start, Call Restart] (GDBInterface_init ''firmware/app.elf'')) = [0, 2]
         \<and> running_emulators (run [Call Start, Call Restart] (GDBInterface_init ''firmware/app.elf'')) = [2]
         \<and> debuggers (run [Call Start, Call Restart] (GDBInterface_init ''firmware/app.elf'')) = [3]"
    by (simp add: session_eval running_emulators_def)
  from lifecycle_at_most_one_running
         [of "[Call Start, Call Restart, EmulatorExits 0, Call Stop, Call Start]" "''firmware/app.elf''"]
    lifecycle_at_most_one_running [of "[Call Start]" "''firmware/app.elf''" "Call Restart"] a
  show ?thesis by blast
qed

text \<open>
  Claim C8. After a start and a restart, with no process having exited yet, the emulator
  of the start has been sent \<^verbatim>\<open>SIGTERM\<close> and is still live beside the emulator of the
  restart: two emulators are live, and the bound of one does not hold.
\<close>

theorem restart_leaves_two_emulators:
  "emulators (run [Call Start, Call Restart] (GDBInterface_init ''firmware/app.elf'')) = [0, 2]
   \<and> signalled (run [Call Start, Call Restart] (GDBInterface_init ''firmware/app.elf'')) = [0]
   \<and> qemu_proc (run [Call Start, Call Restart] (GDBInterface_init ''firmware/app.elf'')) = Some 2
   \<and> \<not> at_most_one (run [Call Start, Call Restart] (GDBInterface_init ''firmware/app.elf''))"
  by (simp add: session_eval at_most_one_def)

subsection \<open>The command operations\<close>

lemma demo_session_eq:
  "demo_session =
     \<lparr>elf_path = ''firmware/app.elf'', qemu_proc = Some 0,
      gdbmi = Some \<lparr>gdb_pid = 1,
                    written = [''-file-exec-and-symbols firmware/app.elf'',
                               ''target remote localhost:1234'']\<rparr>,
      emulators = [0], signalled = [], debuggers = [1], next_pid = 2\<rparr>"
  by (simp add: demo_session_def session_eval)

lemma gdbmi_write_no_session:
  "gdbmi s = None \<Longrightarrow> gdbmi_write dbg s cmd = (Inl AttributeError, s)"
  by (simp add: gdbmi_write_def)

lemma invoke_no_session:
  "gdbmi s = None \<Longrightarrow> invoke dbg c s = (Inl AttributeError, s)"
  by (cases c)
     (simp_all add: gdbmi_write_no_session step_instruction_def continue_execution_def
        get_registers_def read_memory_def set_breakpoint_def backtrace_def
        evaluate_expression_def write_register_def write_memory_def)

text \<open>
  Claim C3, as the code has it. Every command operation, invoked on an interface that
  was never started or that \<^verbatim>\<open>stop_all\<close> has torn down, raises \<^verbatim>\<open>AttributeError\<close> at
  once and leaves the session as it was: nothing is written, nothing blocks, and no
  error value is returned to the caller.
\<close>

theorem invoke_without_session_raises:
  "invoke dbg c (GDBInterface_init path) = (Inl AttributeError, GDBInterface_init path)
   \<and> invoke dbg c (stop_all s) = (Inl AttributeError, stop_all s)"
proof
  have "gdbmi (GDBInterface_init path) = None"
    by (simp add: GDBInterface_init_def)
  then show "invoke dbg c (GDBInterface_init path) = (Inl AttributeError, GDBInterface_init path)"
    by (rule invoke_no_session)
next
  have "gdbmi (stop_all s) = None"
    using stop_all_handles[of s] by simp
  then show "invoke dbg c (stop_all s) = (Inl AttributeError, stop_all s)"
    by (rule invoke_no_session)
qed

text \<open>
  Claim C3 as stated fails: on the never-started interface, \<^verbatim>\<open>step_instruction\<close> does
  not return an error value, it raises \<^verbatim>\<open>AttributeError\<close>.
\<close>

theorem step_instruction_without_session:
  "fst (invoke demo_dbg StepInstruction (GDBInterface_init ''firmware/app.elf'')) = Inl AttributeError"
  by (simp add: step_instruction_def gdbmi_write_def GDBInterface_init_def)

lemma last_written_gdbmi_write:
  "gdbmi s \<noteq> None \<Longrightarrow> last_written (snd (gdbmi_write dbg s cmd)) = Some cmd"
  by (auto simp: last_written_def gdbmi_write_def)

lemma restart_environment_gdbmi: "gdbmi (snd (restart_environment s)) \<noteq> None"
  by (simp add: restart_environment_def Let_def bootstrap_symbols_def bootstrap_connect_def
        gdbmi_write_def launch_debugger_def)

text \<open>
  Claim C4. In a running session \<^verbatim>\<open>step_instruction\<close> writes \<^verbatim>\<open>-exec-next-instruction\<close>,
  the command that steps over calls, and not \<^verbatim>\<open>-exec-step-instruction\<close>, the command
  that executes one instruction in every case.
\<close>

theorem step_instruction_writes_nexti:
  "last_written (snd (step_instruction dbg (snd (restart_environment s)))) = Some mi_nexti
   \<and> last_written (snd (step_instruction dbg (snd (restart_environment s)))) \<noteq> Some mi_stepi
   \<and> last_written (snd (step_instruction demo_dbg demo_session)) = Some ''-exec-next-instruction''"
  by (simp add: step_instruction_def last_written_gdbmi_write restart_environment_gdbmi
        mi_nexti_def mi_stepi_def demo_session_def)

text \<open>
  Claim C2. In the running example session, the call of \<^verbatim>\<open>write_memory\<close> with width 1
  raises \<^verbatim>\<open>TypeError\<close> and writes nothing, as does a call with any width in any
  session; the call without a width writes through the
  type \<^verbatim>\<open>int\<close>, as it does for every address and value; the shadowed first
  definition would have selected \<^verbatim>\<open>char\<close> for width 1.
\<close>

theorem write_memory_width_not_taken:
  "write_memory_call demo_dbg demo_session ''0x20000000'' ''0xAA'' (Some 1) = (Inl TypeError, demo_session)
   \<and> write_memory_call dbg s address val (Some w) = (Inl TypeError, s)
   \<and> last_written (snd (write_memory_call demo_dbg demo_session ''0x20000000'' ''0xAA'' None))
       = Some (''interpreter-exec console '' @ dquote @ ''set {int}0x20000000 = 0xAA'' @ dquote)
   \<and> last_written (snd (write_memory_shadowed demo_dbg demo_session ''0x20000000'' ''0xAA'' 1))
       = Some (''-interpreter-exec console '' @ dquote @ ''set *(char*)0x20000000 = 0xAA'' @ dquote)
   \<and> last_written (snd (write_memory_call dbg (snd (restart_environment s)) address val None))
       = Some (''interpreter-exec console '' @ dquote @ ''set {int}'' @ address @ '' = '' @ val @ dquote)"
  by (simp add: write_memory_call_def write_memory_def write_memory_shadowed_def type_map_def
        last_written_gdbmi_write restart_environment_gdbmi demo_session_def)

end
